theory Spec2Isabelle
  imports Main "HOL-Library.Word" "HOL-Library.Multiset"
begin

unbundle bit_operations_syntax

section \<open>Common vocabulary\<close>

text \<open>
  The program is Python 2 (\<^verbatim>\<open>KeyError.message\<close>, a \<^verbatim>\<open>str\<close> salt handed to
  \<^verbatim>\<open>pbkdf2_hmac\<close>, \<^verbatim>\<open>raw_input\<close>).  Bytes of a \<^verbatim>\<open>bytearray\<close> handled
  arithmetically (the cipher) are \<open>8 word\<close>; bytes that are text on the wire
  (HTTP heads and bodies) are \<open>char\<close>, Isabelle's 8-bit character.  Every exception
  the modelled functions can raise is a constructor of \<open>py_error\<close>, and a function
  that can raise returns \<open>py_error + 'a\<close>.
\<close>

type_synonym byte = "8 word"

datatype py_error =
    KeyError string
  | IndexError
  | ValueError
  | TypeError
  | UnicodeDecodeError
  | UnboundLocalError string
  | ServiceArgError string
  | ServiceMethodError string
  | NullRequestError
  | HTTPError string
  | VersionError
  | HeaderTypeError string
  | NoHandleError string
  | NullCertificateError
  | SocketError

subsection \<open>Text form of an integer (\<^verbatim>\<open>str(n)\<close>)\<close>

definition digit_char :: "nat \<Rightarrow> char" where
  "digit_char d = ''0123456789'' ! d"

fun str_nat :: "nat \<Rightarrow> string" where
  "str_nat n = (if n < 10 then [digit_char n] else str_nat (n div 10) @ [digit_char (n mod 10)])"

definition str_int :: "int \<Rightarrow> string" where
  "str_int i = (if i < 0 then CHR ''-'' # str_nat (nat (- i)) else str_nat (nat i))"

subsection \<open>The UTF-8 codec (\<^verbatim>\<open>bytearray(s, "utf-8")\<close>, \<^verbatim>\<open>b.decode("utf-8")\<close>)\<close>

text \<open>
  A text is its list of code points.  The decoder is the one of RFC 3629: shortest
  form only, nothing above U+10FFFF, no surrogates (Python 2.7 lets surrogates
  through; no result below depends on which bytes are well-formed, only on the
  decoder being a function of the bytes).
\<close>

definition is_cont :: "byte \<Rightarrow> bool" where
  "is_cont b \<longleftrightarrow> 0x80 \<le> b \<and> b \<le> 0xBF"

definition cont_bits :: "byte \<Rightarrow> nat" where
  "cont_bits b = unat b mod 64"

definition scalar_ok :: "nat \<Rightarrow> bool" where
  "scalar_ok c \<longleftrightarrow> c \<le> 0x10FFFF \<and> \<not> (0xD800 \<le> c \<and> c \<le> 0xDFFF)"

fun utf8_decode :: "byte list \<Rightarrow> nat list option" where
  "utf8_decode [] = Some []"
| "utf8_decode (b # bs) =
     (if b < 0x80 then map_option ((#) (unat b)) (utf8_decode bs)
      else if 0xC2 \<le> b \<and> b \<le> 0xDF then
        (case bs of
           c1 # r \<Rightarrow>
             if is_cont c1
             then map_option ((#) ((unat b mod 32) * 64 + cont_bits c1)) (utf8_decode r)
             else None
         | _ \<Rightarrow> None)
      else if 0xE0 \<le> b \<and> b \<le> 0xEF then
        (case bs of
           c1 # c2 # r \<Rightarrow>
             (let c = (unat b mod 16) * 4096 + cont_bits c1 * 64 + cont_bits c2
              in if is_cont c1 \<and> is_cont c2 \<and> 0x800 \<le> c \<and> scalar_ok c
                 then map_option ((#) c) (utf8_decode r) else None)
         | _ \<Rightarrow> None)
      else if 0xF0 \<le> b \<and> b \<le> 0xF4 then
        (case bs of
           c1 # c2 # c3 # r \<Rightarrow>
             (let c = (unat b mod 8) * 262144 + cont_bits c1 * 4096
                        + cont_bits c2 * 64 + cont_bits c3
              in if is_cont c1 \<and> is_cont c2 \<and> is_cont c3 \<and> 0x10000 \<le> c \<and> scalar_ok c
                 then map_option ((#) c) (utf8_decode r) else None)
         | _ \<Rightarrow> None)
      else None)"

definition utf8_encode1 :: "nat \<Rightarrow> byte list" where
  "utf8_encode1 c =
     (if c < 0x80 then [of_nat c]
      else if c < 0x800 then [of_nat (0xC0 + c div 64), of_nat (0x80 + c mod 64)]
      else if c < 0x10000 then
        [of_nat (0xE0 + c div 4096), of_nat (0x80 + c div 64 mod 64), of_nat (0x80 + c mod 64)]
      else
        [of_nat (0xF0 + c div 262144), of_nat (0x80 + c div 4096 mod 64),
         of_nat (0x80 + c div 64 mod 64), of_nat (0x80 + c mod 64)])"

definition utf8_encode :: "nat list \<Rightarrow> byte list" where
  "utf8_encode cs = concat (map utf8_encode1 cs)"

section \<open>The session layer (\<^verbatim>\<open>iotscp/core/scsession.py\<close>)\<close>

definition KEY_TTL :: int where
  "KEY_TTL = 5"

definition clamp_to :: "int \<Rightarrow> int \<Rightarrow> int" where
  "clamp_to n clamp = n - (n mod clamp) + clamp"

text \<open>
  \<^verbatim>\<open>hashlib.pbkdf2_hmac(name, password, salt, iterations, dklen)\<close> is a library
  function and a parameter \<open>pb\<close> of everything that derives a key.  Its one property
  used by the code is that it returns \<open>dklen\<close> bytes, which keeps every \<^verbatim>\<open>key[i]\<close>
  of the randomization loop in range.
\<close>

type_synonym pbkdf2 = "string \<Rightarrow> byte list \<Rightarrow> string \<Rightarrow> nat \<Rightarrow> nat \<Rightarrow> byte list"

definition pbkdf2_contract :: "pbkdf2 \<Rightarrow> bool" where
  "pbkdf2_contract pb \<longleftrightarrow> (\<forall>h p s it n. length (pb h p s it n) = n)"

text \<open>
  The fields of an \<^verbatim>\<open>SCSession\<close>.  The certificate enters only through
  \<^verbatim>\<open>cert.get_key_segment()\<close>, read once by \<^verbatim>\<open>__fresh_key\<close>; the clock enters as
  the value of \<^verbatim>\<open>ceil(self.__start.elapsed())\<close> (\<open>el\<close>) or \<^verbatim>\<open>ceil(time())\<close>
  (\<open>now\<close>) at the call that reads it.
\<close>

record session =
  hashtype :: string
  cipher :: "byte list"
  prev_key :: "byte list"
  new_key :: "byte list"

definition get_next_segment_time :: "int \<Rightarrow> int" where
  "get_next_segment_time el = clamp_to el KEY_TTL"

text \<open>
  \<^verbatim>\<open>__fresh_key\<close> passes \<^verbatim>\<open>str(clamp_to(ceil(time()), KEY_TTL))\<close> as the salt.
  \<^verbatim>\<open>math.ceil\<close> returns a float and nothing converts it, so the text is that of a whole
  float, the digits followed by \<^verbatim>\<open>.0\<close> (the form \<^verbatim>\<open>str\<close> gives below \<open>10\<^sup>1\<^sup>2\<close>, where
  seconds since the epoch lie).  \<^verbatim>\<open>__get_next_segment_time\<close> converts with \<^verbatim>\<open>int\<close>, so
  the salt of \<^verbatim>\<open>__derived_key\<close> has the digits only.
\<close>

definition str_whole_float :: "int \<Rightarrow> string" where
  "str_whole_float v = str_int v @ ''.0''"

definition fresh_key :: "pbkdf2 \<Rightarrow> string \<Rightarrow> byte list \<Rightarrow> int \<Rightarrow> byte list" where
  "fresh_key pb h segment now = pb h segment (str_whole_float (clamp_to now KEY_TTL)) 10000 256"

definition derived_key :: "pbkdf2 \<Rightarrow> session \<Rightarrow> int \<Rightarrow> byte list" where
  "derived_key pb s el = pb (hashtype s) (prev_key s) (str_int (get_next_segment_time el)) 100 256"

definition init_cipher :: "byte list" where
  "init_cipher = map of_nat [0..<256]"

definition session_init :: "pbkdf2 \<Rightarrow> byte list \<Rightarrow> string \<Rightarrow> int \<Rightarrow> int \<Rightarrow> session" where
  "session_init pb segment h now el =
     (let s = \<lparr>hashtype = h, cipher = init_cipher,
               prev_key = fresh_key pb h segment now, new_key = []\<rparr>
      in s\<lparr>new_key := derived_key pb s el\<rparr>)"

text \<open>One pass of the body of the \<^verbatim>\<open>while i < 256\<close> loop of \<^verbatim>\<open>__randomize\<close>.\<close>

definition swap_step :: "byte list \<Rightarrow> byte list \<Rightarrow> nat \<Rightarrow> byte list" where
  "swap_step key c i =
     (let old = c ! i; k = unat (key ! i)
      in (c[i := c ! k])[k := old])"

function randomize_loop :: "byte list \<Rightarrow> byte list \<Rightarrow> nat \<Rightarrow> byte list" where
  "randomize_loop key c i =
     (if i < 256 then randomize_loop key (swap_step key c i) (i + 1) else c)"
  by pat_completeness auto
termination
  by (relation "measure (\<lambda>(key, c, i). 256 - i)") auto

declare randomize_loop.simps [simp del]

definition get_key :: "pbkdf2 \<Rightarrow> int \<Rightarrow> session \<Rightarrow> byte list \<times> session" where
  "get_key pb el s = (let key = derived_key pb s el in (key, s\<lparr>new_key := key\<rparr>))"

definition randomize :: "pbkdf2 \<Rightarrow> int \<Rightarrow> session \<Rightarrow> session" where
  "randomize pb el s =
     (case get_key pb el s of (key, s') \<Rightarrow> s'\<lparr>cipher := randomize_loop key (cipher s') 0\<rparr>)"

datatype enc_input = Bytearray "byte list" | Text "nat list"

function encrypt_loop :: "byte list \<Rightarrow> byte list \<Rightarrow> nat \<Rightarrow> byte list" where
  "encrypt_loop c input_u8 i =
     (if i < length input_u8
      then encrypt_loop c
             (input_u8[i := (c ! unat (input_u8 ! i)) XOR (c ! (i mod 256))]) (i + 1)
      else input_u8)"
  by pat_completeness auto
termination
  by (relation "measure (\<lambda>(c, input_u8, i). length input_u8 - i)") auto

declare encrypt_loop.simps [simp del]

definition encrypt :: "pbkdf2 \<Rightarrow> int \<Rightarrow> session \<Rightarrow> enc_input \<Rightarrow> session \<times> byte list" where
  "encrypt pb el s inp =
     (let s' = (if prev_key s = new_key s then randomize pb el s else s);
          input_u8 = (case inp of Bytearray bs \<Rightarrow> bs | Text cs \<Rightarrow> utf8_encode cs)
      in (s', encrypt_loop (cipher s') input_u8 0))"

text \<open>
  \<^verbatim>\<open>key_map = {b:i for i, b in enumerate(self.cipher)}\<close>: entries are inserted in
  order of position, a later position overwriting an earlier one with the same byte.
\<close>

fun key_map_from :: "nat \<Rightarrow> byte list \<Rightarrow> (byte \<rightharpoonup> nat) \<Rightarrow> (byte \<rightharpoonup> nat)" where
  "key_map_from i [] m = m"
| "key_map_from i (b # bs) m = key_map_from (i + 1) bs (m(b \<mapsto> i))"

definition key_map :: "byte list \<Rightarrow> (byte \<rightharpoonup> nat)" where
  "key_map c = key_map_from 0 c Map.empty"

text \<open>
  The loop of \<^verbatim>\<open>decrypt\<close>; \<^verbatim>\<open>key_map[...]\<close> raises \<^verbatim>\<open>KeyError\<close> on a byte that
  is no entry of the cipher, and storing a position above 255 in a bytearray raises
  \<^verbatim>\<open>ValueError\<close>.
\<close>

function decrypt_loop :: "byte list \<Rightarrow> (byte \<rightharpoonup> nat) \<Rightarrow> byte list \<Rightarrow> nat \<Rightarrow> py_error + byte list" where
  "decrypt_loop c km input_u8 i =
     (if i < length input_u8
      then (case km ((input_u8 ! i) XOR (c ! (i mod 256))) of
              None \<Rightarrow> Inl (KeyError (str_nat (unat ((input_u8 ! i) XOR (c ! (i mod 256))))))
            | Some j \<Rightarrow>
                if j < 256 then decrypt_loop c km (input_u8[i := of_nat j]) (i + 1)
                else Inl ValueError)
      else Inr input_u8)"
  by pat_completeness auto
termination
  by (relation "measure (\<lambda>(c, km, input_u8, i). length input_u8 - i)") auto

declare decrypt_loop.simps [simp del]

definition decrypt :: "pbkdf2 \<Rightarrow> int \<Rightarrow> session \<Rightarrow> byte list \<Rightarrow> session \<times> (py_error + nat list)" where
  "decrypt pb el s input_u8 =
     (let s' = (if prev_key s = new_key s then randomize pb el s else s)
      in (s', case decrypt_loop (cipher s') (key_map (cipher s')) input_u8 0 of
                Inl e \<Rightarrow> Inl e
              | Inr out \<Rightarrow>
                  (case utf8_decode out of
                     None \<Rightarrow> Inl UnicodeDecodeError
                   | Some text \<Rightarrow> Inr text)))"

definition update_key :: "session \<Rightarrow> session" where
  "update_key s = s\<lparr>prev_key := new_key s\<rparr>"

subsection \<open>Vocabulary of the session properties\<close>

text \<open>The cipher is a permutation of the byte values \<open>0..255\<close>.\<close>

definition is_permutation :: "byte list \<Rightarrow> bool" where
  "is_permutation c \<longleftrightarrow> mset c = mset (map of_nat [0..<256])"

text \<open>
  A caller's use of a session: a sequence of calls of its three public methods, each
  with the clock value it reads.  A call of \<^verbatim>\<open>decrypt\<close> that raises has already
  run its randomization, so the state after the call is the first component either way.
\<close>

datatype session_op = Encrypt int enc_input | Decrypt int "byte list" | UpdateKey

fun session_step :: "pbkdf2 \<Rightarrow> session \<Rightarrow> session_op \<Rightarrow> session" where
  "session_step pb s (Encrypt el inp) = fst (encrypt pb el s inp)"
| "session_step pb s (Decrypt el ct) = fst (decrypt pb el s ct)"
| "session_step pb s UpdateKey = update_key s"

fun run_session :: "pbkdf2 \<Rightarrow> session \<Rightarrow> session_op list \<Rightarrow> session" where
  "run_session pb s [] = s"
| "run_session pb s (op # ops) = run_session pb (session_step pb s op) ops"




section \<open>The HTTP engine (\<^verbatim>\<open>iotscp/http/httpbase/httputil.py\<close>)\<close>

subsection \<open>The two regular expressions\<close>

text \<open>
  \<^verbatim>\<open>RE_REQLINE = "(.+?)(?: )(.+?)(?: )(.+?)(?:\r\n)"\<close> and
  \<^verbatim>\<open>RE_HEADERS = "(.+?)(?::\s*)(.+?)(?:\r\n)"\<close> are sequences of three kinds of item:
  one character of a class, a capturing lazy \<^verbatim>\<open>(.+?)\<close>, a greedy \<^verbatim>\<open>\s*\<close>.  The
  matcher is the backtracking one of Python's \<^verbatim>\<open>re\<close>: a lazy group tries the shortest
  match first and grows by one character when the rest of the pattern fails, a greedy
  star tries the longest run first.  It returns the captured groups and the unread rest
  of the string.
\<close>

datatype cclass = Lit char | Dot | Space

fun cmatch :: "cclass \<Rightarrow> char \<Rightarrow> bool" where
  "cmatch (Lit a) c = (c = a)"
| "cmatch Dot c = (c \<noteq> CHR 0x0A)"
| "cmatch Space c = (c \<in> set [CHR '' '', CHR 0x09, CHR 0x0A, CHR 0x0B, CHR 0x0C, CHR 0x0D])"

datatype item = Atom cclass | LazyGroup cclass | GreedyStar cclass

function rmatch :: "item list \<Rightarrow> string \<Rightarrow> (string list \<times> string) option"
  and lazy_more :: "cclass \<Rightarrow> item list \<Rightarrow> string \<Rightarrow> string \<Rightarrow> (string list \<times> string) option"
where
  "rmatch [] s = Some ([], s)"
| "rmatch (Atom cl # r) [] = None"
| "rmatch (Atom cl # r) (c # cs) = (if cmatch cl c then rmatch r cs else None)"
| "rmatch (LazyGroup cl # r) [] = None"
| "rmatch (LazyGroup cl # r) (c # cs) = (if cmatch cl c then lazy_more cl r [c] cs else None)"
| "rmatch (GreedyStar cl # r) [] = rmatch r []"
| "rmatch (GreedyStar cl # r) (c # cs) =
     (if cmatch cl c
      then (case rmatch (GreedyStar cl # r) cs of
              Some res \<Rightarrow> Some res
            | None \<Rightarrow> rmatch r (c # cs))
      else rmatch r (c # cs))"
| "lazy_more cl r acc s =
     (case rmatch r s of
        Some (groups, rest) \<Rightarrow> Some (acc # groups, rest)
      | None \<Rightarrow>
          (case s of
             [] \<Rightarrow> None
           | c # cs \<Rightarrow> if cmatch cl c then lazy_more cl r (acc @ [c]) cs else None))"
  by pat_completeness auto
termination
  by (relation "measure (\<lambda>x. case x of
          Inl (items, s) \<Rightarrow> 2 * (length s + length items)
        | Inr (cl, r, acc, s) \<Rightarrow> 2 * (length s + length r) + 1)") auto

declare lazy_more.simps [simp del]

definition RE_REQLINE :: "item list" where
  "RE_REQLINE = [LazyGroup Dot, Atom (Lit CHR '' ''), LazyGroup Dot, Atom (Lit CHR '' ''),
                 LazyGroup Dot, Atom (Lit (CHR 0x0D)), Atom (Lit (CHR 0x0A))]"

definition RE_HEADERS :: "item list" where
  "RE_HEADERS = [LazyGroup Dot, Atom (Lit CHR '':''), GreedyStar Space,
                 LazyGroup Dot, Atom (Lit (CHR 0x0D)), Atom (Lit (CHR 0x0A))]"

text \<open>The number of capturing groups of a pattern.\<close>

fun count_groups :: "item list \<Rightarrow> nat" where
  "count_groups [] = 0"
| "count_groups (LazyGroup cl # r) = Suc (count_groups r)"
| "count_groups (x # r) = count_groups r"

text \<open>
  \<^verbatim>\<open>pattern.finditer(s)\<close>: the matches from left to right, each search starting where
  the previous match ended (one character further after an empty match).
\<close>

function finditer :: "item list \<Rightarrow> string \<Rightarrow> string list list" where
  "finditer items s =
     (case rmatch items s of
        Some (groups, rest) \<Rightarrow>
          if length rest < length s then groups # finditer items rest
          else (case s of [] \<Rightarrow> [groups] | c # cs \<Rightarrow> groups # finditer items cs)
      | None \<Rightarrow> (case s of [] \<Rightarrow> [] | c # cs \<Rightarrow> finditer items cs))"
  by pat_completeness auto
termination
  by (relation "measure (\<lambda>(items, s). length s)") auto

declare finditer.simps [simp del]

subsection \<open>Text helpers of the Python library\<close>

definition lower_char :: "char \<Rightarrow> char" where
  "lower_char c =
     (case map_of (zip ''ABCDEFGHIJKLMNOPQRSTUVWXYZ'' ''abcdefghijklmnopqrstuvwxyz'') c of
        Some l \<Rightarrow> l
      | None \<Rightarrow> c)"

definition lower :: "string \<Rightarrow> string" where
  "lower s = map lower_char s"

text \<open>
  \<^verbatim>\<open>int(s)\<close> of a text: surrounding white space is dropped (for a \<^verbatim>\<open>unicode\<close>
  object that includes the separators \<open>0x1C..0x1F\<close>), then an optional sign and at least
  one decimal digit; anything else raises \<^verbatim>\<open>ValueError\<close>.
\<close>

definition int_space :: "char \<Rightarrow> bool" where
  "int_space c \<longleftrightarrow>
     c \<in> set [CHR '' '', CHR 0x09, CHR 0x0A, CHR 0x0B, CHR 0x0C, CHR 0x0D,
              CHR 0x1C, CHR 0x1D, CHR 0x1E, CHR 0x1F]"

definition strip :: "string \<Rightarrow> string" where
  "strip s = rev (dropWhile int_space (rev (dropWhile int_space s)))"

definition is_digit :: "char \<Rightarrow> bool" where
  "is_digit c \<longleftrightarrow> of_char (CHR ''0'') \<le> (of_char c :: nat) \<and> (of_char c :: nat) \<le> of_char (CHR ''9'')"

definition digits_value :: "string \<Rightarrow> nat option" where
  "digits_value ds =
     (if ds \<noteq> [] \<and> list_all is_digit ds
      then Some (foldl (\<lambda>acc c. acc * 10 + ((of_char c :: nat) - of_char (CHR ''0''))) 0 ds)
      else None)"

definition py_int :: "string \<Rightarrow> py_error + int" where
  "py_int s =
     (case (case strip s of
              c # ds \<Rightarrow>
                if c = CHR ''-'' then map_option (\<lambda>n. - int n) (digits_value ds)
                else if c = CHR ''+'' then map_option int (digits_value ds)
                else map_option int (digits_value (c # ds))
            | [] \<Rightarrow> None) of
        None \<Rightarrow> Inl ValueError
      | Some i \<Rightarrow> Inr i)"

text \<open>\<^verbatim>\<open>s.split(sep)\<close> and \<^verbatim>\<open>s.split(sep, 1)[1]\<close> for a one-character separator.\<close>

fun split_on :: "char \<Rightarrow> string \<Rightarrow> string list" where
  "split_on sep [] = [[]]"
| "split_on sep (c # cs) =
     (if c = sep then [] # split_on sep cs
      else (case split_on sep cs of p # ps \<Rightarrow> (c # p) # ps | [] \<Rightarrow> [[c]]))"

definition split1_second :: "char \<Rightarrow> string \<Rightarrow> py_error + string" where
  "split1_second sep s =
     (case dropWhile (\<lambda>c. c \<noteq> sep) s of [] \<Rightarrow> Inl IndexError | c # rest \<Rightarrow> Inr rest)"

text \<open>\<^verbatim>\<open>b.find(sub)\<close>: the lowest index where \<open>sub\<close> occurs, \<open>None\<close> for \<open>-1\<close>.\<close>

fun find_sub :: "string \<Rightarrow> string \<Rightarrow> nat option" where
  "find_sub [] sub = (if sub = [] then Some 0 else None)"
| "find_sub (c # cs) sub =
     (if take (length sub) (c # cs) = sub then Some 0
      else map_option Suc (find_sub cs sub))"

text \<open>\<^verbatim>\<open>xs[a:b]\<close> for indices \<open>0 \<le> a\<close>, \<open>0 \<le> b\<close>.\<close>

definition slice :: "'a list \<Rightarrow> nat \<Rightarrow> nat \<Rightarrow> 'a list" where
  "slice xs a b = take (b - a) (drop a xs)"

subsection \<open>The socket\<close>

text \<open>
  What the peer does is a script: the data of each successful \<^verbatim>\<open>recv_into\<close>, or a
  \<^verbatim>\<open>socket.error\<close> (for instance \<^verbatim>\<open>EWOULDBLOCK\<close> on the non-blocking client socket).
  After the script the peer has closed the connection and every read returns 0 bytes.
  \<^verbatim>\<open>recv_into(buf)\<close> overwrites the front of \<open>buf\<close> with at most \<open>len(buf)\<close> bytes;
  what does not fit stays queued.
\<close>

datatype recv_event = Chunk string | RecvError

type_synonym socket = "recv_event list"

fun recv_into :: "socket \<Rightarrow> string \<Rightarrow> (py_error + nat \<times> string) \<times> socket" where
  "recv_into [] buf = (Inr (0, buf), [])"
| "recv_into (RecvError # es) buf = (Inl SocketError, es)"
| "recv_into (Chunk d # es) buf =
     (if length d \<le> length buf
      then (Inr (length d, d @ drop (length d) buf), es)
      else (Inr (length buf, take (length buf) d), Chunk (drop (length buf) d) # es))"

subsection \<open>Heads and headers\<close>

definition NUMBER_TYPES :: "string list" where
  "NUMBER_TYPES = [''content-length'']"

definition BUFSIZE :: nat where
  "BUFSIZE = 4096"

definition CRLFCRLF :: string where
  "CRLFCRLF = [CHR 0x0D, CHR 0x0A, CHR 0x0D, CHR 0x0A]"

definition bytearray :: "nat \<Rightarrow> string" where
  "bytearray n = replicate n (CHR 0x00)"

datatype hval = HStr string | HNum int

type_synonym headers = "string \<rightharpoonup> hval"

definition parse_number :: "string \<Rightarrow> string \<Rightarrow> py_error + int" where
  "parse_number key n =
     (case py_int n of Inl e \<Rightarrow> Inl (HeaderTypeError key) | Inr i \<Rightarrow> Inr i)"

definition decode_http_head :: "string \<Rightarrow> py_error + string" where
  "decode_http_head head_u8 =
     (if list_all (\<lambda>c. (of_char c :: nat) < 128) head_u8 then Inr head_u8
      else Inl (HTTPError ''HTTP head contained invalid characters''))"

fun parse_headers_loop :: "string list list \<Rightarrow> headers \<Rightarrow> py_error + headers" where
  "parse_headers_loop [] headers_dict = Inr headers_dict"
| "parse_headers_loop (header # rest) headers_dict =
     (let k = lower (header ! 0); v = header ! 1
      in if k \<in> set NUMBER_TYPES
         then (case parse_number k v of
                 Inl e \<Rightarrow> Inl e
               | Inr n \<Rightarrow> parse_headers_loop rest (headers_dict(k \<mapsto> HNum n)))
         else parse_headers_loop rest (headers_dict(k \<mapsto> HStr v)))"

definition parse_headers :: "string \<Rightarrow> py_error + headers" where
  "parse_headers head_str = parse_headers_loop (finditer RE_HEADERS head_str) Map.empty"

text \<open>
  \<^verbatim>\<open>get_head\<close>.  The loop runs for ever when the peer has closed before a separator
  arrived (each read adds nothing), so it is a partial function: \<open>None\<close> is "does not
  return".  A result is the value or exception together with what is left of the script.
\<close>

type_synonym 'a io = "((py_error + 'a) \<times> socket) option"

partial_function (option) get_head_loop :: "socket \<Rightarrow> string \<Rightarrow> string \<Rightarrow> (string \<times> string) io" where
  "get_head_loop client buf recvd =
     (if length recvd < 65537
      then (case recv_into client buf of
              (Inl e, client') \<Rightarrow> Some (Inl e, client')
            | (Inr (amt, buf'), client') \<Rightarrow>
                (case find_sub (recvd @ take amt buf') CRLFCRLF of
                   Some body_start \<Rightarrow>
                     (case decode_http_head (take (body_start + 2) (recvd @ take amt buf')) of
                        Inl e \<Rightarrow> Some (Inl e, client')
                      | Inr head \<Rightarrow>
                          Some (Inr (head, drop (body_start + 4) (recvd @ take amt buf')), client'))
                 | None \<Rightarrow> get_head_loop client' buf' (recvd @ take amt buf')))
      else Some (Inl (HTTPError ''HTTP head too long''), client))"

declare get_head_loop.simps [code]

definition get_head :: "socket \<Rightarrow> (string \<times> string) io" where
  "get_head client =
     (case recv_into client (bytearray BUFSIZE) of
        (Inl e, client') \<Rightarrow> Some (Inl e, client')
      | (Inr (amt, buf), client') \<Rightarrow>
          if amt < BUFSIZE
          then (if amt = 0 then Some (Inl NullRequestError, client')
                else (case find_sub buf CRLFCRLF of
                        Some body_start \<Rightarrow>
                          (case decode_http_head (take (body_start + 2) buf) of
                             Inl e \<Rightarrow> Some (Inl e, client')
                           | Inr head \<Rightarrow>
                               Some (Inr (head, slice buf (body_start + 4) amt), client'))
                      | None \<Rightarrow> get_head_loop client' buf buf))
          else get_head_loop client' buf buf)"

record http_head =
  head :: string
  body :: string
  reqline :: "string \<times> string \<times> string"
  headers :: headers

text \<open>
  \<^verbatim>\<open>HttpHead.recv_body\<close>.  \<open>amt\<close> is the running total of the bytes read, and it is
  the running total that cuts the slice \<^verbatim>\<open>buf[:amt]\<close> appended to the body.
\<close>

partial_function (option) recv_body_loop :: "socket \<Rightarrow> string \<Rightarrow> int \<Rightarrow> int \<Rightarrow> string \<Rightarrow> string io" where
  "recv_body_loop client buf amt nbytes body_u8 =
     (if amt < nbytes
      then (case recv_into client buf of
              (Inl e, client') \<Rightarrow> Some (Inl e, client')
            | (Inr (n, buf'), client') \<Rightarrow>
                recv_body_loop client' buf' (amt + int n) nbytes
                  (body_u8 @ take (nat (amt + int n)) buf'))
      else Some (Inr body_u8, client))"

declare recv_body_loop.simps [code]

definition recv_body :: "http_head \<Rightarrow> socket \<Rightarrow> http_head io" where
  "recv_body h client =
     (case headers h ''content-length'' of
        None \<Rightarrow> Some (Inr h, client)
      | Some (HStr s) \<Rightarrow> Some (Inl TypeError, client)
      | Some (HNum content_length) \<Rightarrow>
          if int (length (body h)) < content_length
          then (case recv_body_loop client (bytearray BUFSIZE) 0
                        (content_length - int (length (body h))) (body h) of
                  None \<Rightarrow> None
                | Some (Inl e, client') \<Rightarrow> Some (Inl e, client')
                | Some (Inr b, client') \<Rightarrow> Some (Inr (h\<lparr>body := b\<rparr>), client'))
          else Some (Inr h, client))"

definition http_head_init :: "socket \<Rightarrow> http_head io" where
  "http_head_init client =
     (case get_head client of
        None \<Rightarrow> None
      | Some (Inl e, client') \<Rightarrow> Some (Inl e, client')
      | Some (Inr (head_str, body_u8), client') \<Rightarrow>
          (case rmatch RE_REQLINE head_str of
             None \<Rightarrow> Some (Inl VersionError, client')
           | Some (groups, rest) \<Rightarrow>
               (case parse_headers head_str of
                  Inl e \<Rightarrow> Some (Inl e, client')
                | Inr hs \<Rightarrow>
                    Some (Inr \<lparr>head = head_str, body = body_u8,
                               reqline = (groups ! 0, groups ! 1, groups ! 2),
                               headers = hs\<rparr>, client'))))"

definition req_type :: "http_head \<Rightarrow> string" where
  "req_type r = fst (reqline r)"

definition url :: "http_head \<Rightarrow> string" where
  "url r = fst (snd (reqline r))"

definition proto :: "http_head \<Rightarrow> string" where
  "proto r = snd (snd (reqline r))"

definition http_request_init :: "socket \<Rightarrow> http_head io" where
  "http_request_init client =
     (case http_head_init client of
        None \<Rightarrow> None
      | Some (Inl e, client') \<Rightarrow> Some (Inl e, client')
      | Some (Inr r, client') \<Rightarrow>
          if req_type r = ''POST'' then recv_body r client' else Some (Inr r, client'))"

section \<open>Responses and connections (\<^verbatim>\<open>iotscp/http/httpbase/serverclient.py\<close>)\<close>

definition RESPONSES :: "(nat \<times> string) list" where
  "RESPONSES =
     [(100, ''Continue''), (101, ''Switching Protocols''),
      (200, ''OK''), (201, ''Created''), (202, ''Accepted''),
      (203, ''Non-Authoritative Information''), (204, ''No Content''),
      (205, ''Reset Content''), (206, ''Partial Content''),
      (300, ''Multiple Choices''), (301, ''Moved Permanently''), (302, ''Found''),
      (303, ''See Other''), (304, ''Not Modified''), (305, ''Use Proxy''),
      (307, ''Temporary Redirect''),
      (400, ''Bad Request''), (401, ''Unauthorized''), (402, ''Payment Required''),
      (403, ''Forbidden''), (404, ''Not Found''), (405, ''Method Not Allowed''),
      (406, ''Not Acceptable''), (407, ''Proxy Authentication Required''),
      (408, ''Request Timeout''), (409, ''Conflict''), (410, ''Gone''),
      (411, ''Length Required''), (412, ''Precondition Failed''),
      (413, ''Request Entity Too Large''), (414, ''Request-URI Too Long''),
      (415, ''Unsupported Media Type''), (416, ''Requested Range Not Satisfiable''),
      (417, ''Expectation Failed''),
      (500, ''Internal Server Error''), (501, ''Not Implemented''), (502, ''Bad Gateway''),
      (503, ''Service Unavailable''), (504, ''Gateway Timeout''),
      (505, ''HTTP Version Not Supported'')]"

text \<open>
  What \<^verbatim>\<open>make_head\<close> and the body writers put on the wire, field by field: the status
  line, the caller's headers in the order they were set, the \<^verbatim>\<open>Connection\<close> header
  and the body.  The fixed \<^verbatim>\<open>Cache-Control\<close> and \<^verbatim>\<open>Server\<close> headers and the
  \<^verbatim>\<open>Date\<close> are left out; a send is taken to succeed.
\<close>

record response =
  scode :: nat
  reason :: string
  sent_headers :: "(string \<times> string) list"
  connection :: string
  payload :: string

record server_client =
  keep_alive :: bool
  req :: http_head
  addr :: "string \<times> nat"
  sent :: "response list"

fun tuple_ge :: "int list \<Rightarrow> int list \<Rightarrow> bool" where
  "tuple_ge xs [] = True"
| "tuple_ge [] (y # ys) = False"
| "tuple_ge (x # xs) (y # ys) = (if x = y then tuple_ge xs ys else y < x)"

fun ints_of :: "string list \<Rightarrow> py_error + int list" where
  "ints_of [] = Inr []"
| "ints_of (n # ns) =
     (case py_int n of
        Inl e \<Rightarrow> Inl e
      | Inr i \<Rightarrow> (case ints_of ns of Inl e \<Rightarrow> Inl e | Inr is \<Rightarrow> Inr (i # is)))"

definition server_client_init :: "http_head \<Rightarrow> string \<times> nat \<Rightarrow> py_error + server_client" where
  "server_client_init r a =
     (case split1_second (CHR ''/'') (proto r) of
        Inl e \<Rightarrow> Inl e
      | Inr str_version \<Rightarrow>
          (case ints_of (split_on (CHR ''.'') str_version) of
             Inl e \<Rightarrow> Inl e
           | Inr version \<Rightarrow>
               Inr \<lparr>keep_alive =
                      (tuple_ge version [1, 1] \<and> headers r ''connection'' \<noteq> None
                       \<and> headers r ''connection'' = Some (HStr ''keep-alive'')),
                    req = r, addr = a, sent = []\<rparr>))"

definition make_head :: "server_client \<Rightarrow> nat \<Rightarrow> (string \<times> string) list \<Rightarrow> string \<Rightarrow> py_error + response" where
  "make_head sc code headers_dict content =
     (case map_of RESPONSES code of
        None \<Rightarrow> Inl (KeyError (str_nat code))
      | Some phrase \<Rightarrow>
          Inr \<lparr>scode = code, reason = phrase, sent_headers = headers_dict,
               connection = (if keep_alive sc then ''keep-alive'' else ''close''),
               payload = content\<rparr>)"

definition write_head :: "server_client \<Rightarrow> nat \<Rightarrow> py_error + server_client" where
  "write_head sc code =
     (case make_head sc code [] [] of
        Inl e \<Rightarrow> Inl e
      | Inr output_u8 \<Rightarrow> Inr (sc\<lparr>sent := sent sc @ [output_u8]\<rparr>))"

definition write_body :: "server_client \<Rightarrow> nat \<Rightarrow> string \<Rightarrow> string \<Rightarrow> py_error + server_client" where
  "write_body sc code ctype content =
     (case make_head sc code
             [(''Content-Type'', ctype), (''Content-Length'', str_nat (length content))] content of
        Inl e \<Rightarrow> Inl e
      | Inr output_u8 \<Rightarrow> Inr (sc\<lparr>sent := sent sc @ [output_u8]\<rparr>))"

definition write_generic_body :: "server_client \<Rightarrow> nat \<Rightarrow> py_error + server_client" where
  "write_generic_body sc code =
     (case map_of RESPONSES code of
        None \<Rightarrow> Inl (KeyError (str_nat code))
      | Some phrase \<Rightarrow>
          write_body sc code ''text/html; charset=utf-8''
            (''<!DOCTYPE html><html><body><h1>'' @ str_nat code @ '' '' @ phrase
               @ ''<h1></body></html>''))"

section \<open>The server loop body (\<^verbatim>\<open>iotscp/http/httpbase/httpserver.py\<close>)\<close>

text \<open>
  A verb handler works on the connection object: it may write, may change
  \<^verbatim>\<open>keep_alive\<close>, and may raise.  The handler table is a parameter.
\<close>

type_synonym handler = "server_client \<Rightarrow> py_error option \<times> server_client"

definition get_handle :: "(string \<rightharpoonup> handler) \<Rightarrow> string \<Rightarrow> py_error + handler" where
  "get_handle handles rt =
     (case handles rt of Some h \<Rightarrow> Inr h | None \<Rightarrow> Inl (NoHandleError rt))"

text \<open>
  The result of \<^verbatim>\<open>handle_one_request\<close>: the value returned or the exception that
  leaves the function, and the responses written to the client.
\<close>

type_synonym handled = "(py_error + bool) \<times> response list"

text \<open>
  The three \<^verbatim>\<open>except\<close> clauses of the outer \<^verbatim>\<open>try\<close>.  The local variable
  \<^verbatim>\<open>serverclient\<close> is \<open>None\<close> while it is unbound, that is until
  \<^verbatim>\<open>ServerClient(req, client, addr)\<close> has returned; reading an unbound local raises
  \<^verbatim>\<open>UnboundLocalError\<close>.  Any other exception leaves the function.
\<close>

definition written :: "server_client option \<Rightarrow> response list" where
  "written v = (case v of None \<Rightarrow> [] | Some sc \<Rightarrow> sent sc)"

fun except_clauses :: "server_client option \<Rightarrow> py_error \<Rightarrow> handled" where
  "except_clauses serverclient NullRequestError = (Inr False, written serverclient)"
| "except_clauses serverclient VersionError =
     (case serverclient of
        None \<Rightarrow> (Inl (UnboundLocalError ''serverclient''), [])
      | Some sc \<Rightarrow>
          (case write_generic_body (sc\<lparr>keep_alive := False\<rparr>) 505 of
             Inl e \<Rightarrow> (Inl e, sent sc)
           | Inr sc' \<Rightarrow> (Inr False, sent sc')))"
| "except_clauses serverclient (NoHandleError rt) =
     (case serverclient of
        None \<Rightarrow> (Inl (UnboundLocalError ''serverclient''), [])
      | Some sc \<Rightarrow>
          (case write_generic_body sc 501 of
             Inl e \<Rightarrow> (Inl e, sent sc)
           | Inr sc' \<Rightarrow> (Inr True, sent sc')))"
| "except_clauses serverclient e = (Inl e, written serverclient)"

definition handle_one_request :: "(string \<rightharpoonup> handler) \<Rightarrow> socket \<Rightarrow> string \<times> nat \<Rightarrow> (handled \<times> socket) option" where
  "handle_one_request handles client a =
     (case http_request_init client of
        None \<Rightarrow> None
      | Some (Inl e, client') \<Rightarrow> Some (except_clauses None e, client')
      | Some (Inr r, client') \<Rightarrow>
          (case server_client_init r a of
             Inl e \<Rightarrow> Some (except_clauses None e, client')
           | Inr serverclient \<Rightarrow>
               (case get_handle handles (req_type r) of
                  Inl e \<Rightarrow> Some (except_clauses (Some serverclient) e, client')
                | Inr handle \<Rightarrow>
                    (case handle serverclient of
                       (Some e, sc') \<Rightarrow>
                         (case write_generic_body sc' 500 of
                            Inl e' \<Rightarrow> Some (except_clauses (Some sc') e', client')
                          | Inr sc'' \<Rightarrow> Some ((Inr True, sent sc''), client'))
                     | (None, sc') \<Rightarrow> Some ((Inr (keep_alive sc'), sent sc'), client')))))"

section \<open>The discovery responder (\<^verbatim>\<open>iotscp/http/udpserver.py\<close>)\<close>

definition should_respond :: "string \<Rightarrow> py_error + bool" where
  "should_respond head_str =
     (case rmatch RE_REQLINE head_str of
        None \<Rightarrow> Inr False
      | Some (groups, rest) \<Rightarrow>
          if groups ! 0 = ''IOT-SEARCH''
          then (case parse_headers head_str of
                  Inl e \<Rightarrow> Inl e
                | Inr hs \<Rightarrow>
                    if hs ''host'' \<noteq> None \<and> hs ''sv'' \<noteq> None \<and> hs ''return'' \<noteq> None
                    then Inr (hs ''host'' = Some (HStr ''239.255.255.250:1900'')
                              \<and> hs ''sv'' = Some (HStr ''iotscp:discover'')
                              \<and> hs ''return'' = Some (HStr ''device; type=basedevice''))
                    else Inr False)
          else Inr False)"

text \<open>
  The response template of \<^verbatim>\<open>UDPServer.__init__\<close>, filled with the date; \<open>location\<close>
  is the text \<^verbatim>\<open>http://<address>:<port>/setup.json\<close> fixed at start-up.
\<close>

definition udp_response :: "string \<Rightarrow> string \<Rightarrow> string" where
  "udp_response location date =
     ''HTTP/1.1 200 OK'' @ [CHR 0x0D, CHR 0x0A]
     @ ''Date: '' @ date @ [CHR 0x0D, CHR 0x0A]
     @ ''Location: '' @ location @ [CHR 0x0D, CHR 0x0A]
     @ ''Server: ZeroMasterUDP/1.0, IOTSCP/1.0'' @ [CHR 0x0D, CHR 0x0A]
     @ [CHR 0x0D, CHR 0x0A]"

definition decode_ascii :: "string \<Rightarrow> py_error + string" where
  "decode_ascii data =
     (if list_all (\<lambda>c. (of_char c :: nat) < 128) data then Inr data else Inl UnicodeDecodeError)"

text \<open>
  One pass of the body of \<^verbatim>\<open>UDPServer.listen\<close> for a readable socket:
  \<^verbatim>\<open>recvfrom(4096)\<close> keeps the first 4096 bytes of the datagram, and every exception
  is logged and swallowed.  The result is the datagram sent back, if any.
\<close>

definition listen_once :: "string \<Rightarrow> string \<Rightarrow> string \<Rightarrow> string option" where
  "listen_once location date datagram =
     (case decode_ascii (take 4096 datagram) of
        Inl e \<Rightarrow> None
      | Inr head_str \<Rightarrow>
          (case should_respond head_str of
             Inl e \<Rightarrow> None
           | Inr respond \<Rightarrow> if respond then Some (udp_response location date) else None))"

section \<open>Service methods (\<^verbatim>\<open>iotscp/core/services.py\<close>)\<close>

text \<open>
  Python values as they come out of \<^verbatim>\<open>json.loads\<close>, and the six types a
  \<^verbatim>\<open>ServiceArg\<close> may declare.  \<^verbatim>\<open>isinstance\<close> follows Python's class hierarchy:
  \<^verbatim>\<open>bool\<close> is a subclass of \<^verbatim>\<open>int\<close>.  (A text is taken to be a \<^verbatim>\<open>str\<close>; the
  difference between \<^verbatim>\<open>str\<close> and \<^verbatim>\<open>unicode\<close> and between \<^verbatim>\<open>int\<close> and
  \<^verbatim>\<open>long\<close> is not modelled.)
\<close>

datatype json =
    JNull
  | JBool bool
  | JInt int
  | JFloat int int
  | JStr string
  | JArr "json list"
  | JObj "(string \<times> json) list"

datatype pytype = TBool | TDict | TFloat | TInt | TList | TStr

fun isinstance :: "json \<Rightarrow> pytype \<Rightarrow> bool" where
  "isinstance (JBool b) t = (t = TBool \<or> t = TInt)"
| "isinstance (JInt i) t = (t = TInt)"
| "isinstance (JFloat m e) t = (t = TFloat)"
| "isinstance (JStr s) t = (t = TStr)"
| "isinstance (JArr xs) t = (t = TList)"
| "isinstance (JObj kv) t = (t = TDict)"
| "isinstance JNull t = False"

text \<open>The text Python 2 prints for a type object, as the error messages embed it.\<close>

fun type_repr :: "pytype \<Rightarrow> string" where
  "type_repr TBool = ''<type '' @ [CHR 0x27] @ ''bool'' @ [CHR 0x27] @ ''>''"
| "type_repr TDict = ''<type '' @ [CHR 0x27] @ ''dict'' @ [CHR 0x27] @ ''>''"
| "type_repr TFloat = ''<type '' @ [CHR 0x27] @ ''float'' @ [CHR 0x27] @ ''>''"
| "type_repr TInt = ''<type '' @ [CHR 0x27] @ ''int'' @ [CHR 0x27] @ ''>''"
| "type_repr TList = ''<type '' @ [CHR 0x27] @ ''list'' @ [CHR 0x27] @ ''>''"
| "type_repr TStr = ''<type '' @ [CHR 0x27] @ ''str'' @ [CHR 0x27] @ ''>''"

fun type_of_repr :: "json \<Rightarrow> string" where
  "type_of_repr JNull = ''<type '' @ [CHR 0x27] @ ''NoneType'' @ [CHR 0x27] @ ''>''"
| "type_of_repr (JBool b) = type_repr TBool"
| "type_of_repr (JInt i) = type_repr TInt"
| "type_of_repr (JFloat m e) = type_repr TFloat"
| "type_of_repr (JStr s) = type_repr TStr"
| "type_of_repr (JArr xs) = type_repr TList"
| "type_of_repr (JObj kv) = type_repr TDict"

text \<open>
  A \<^verbatim>\<open>ServiceMethod\<close>: its declared arguments and returns are lists of
  \<^verbatim>\<open>ServiceArg\<close>, pairs of a name and a type.  The thunk is user code: it gets the
  device and the arguments and returns a dict, \<^verbatim>\<open>None\<close>, or raises.
\<close>

type_synonym pydict = "(string \<times> json) list"

record 'dev service_method =
  name :: string
  thunk :: "'dev \<Rightarrow> pydict \<Rightarrow> py_error + pydict option"
  args :: "(string \<times> pytype) list"
  returns :: "(string \<times> pytype) list"

fun verify_output_loop :: "(string \<times> pytype) list \<Rightarrow> pydict \<Rightarrow> py_error option" where
  "verify_output_loop [] output = None"
| "verify_output_loop ((arg, ty) # rest) output =
     (case map_of output arg of
        None \<Rightarrow> Some (ServiceMethodError (''Missing return value: '' @ arg))
      | Some v \<Rightarrow>
          if \<not> isinstance v ty
          then Some (ServiceMethodError
                       (''Type mismatch error at `'' @ arg @ ''`: expected '' @ type_repr ty
                          @ '', got '' @ type_of_repr v @ '' in return value''))
          else verify_output_loop rest output)"

definition verify_output :: "'dev service_method \<Rightarrow> pydict option \<Rightarrow> py_error option" where
  "verify_output m output =
     (case output of
        Some out \<Rightarrow> verify_output_loop (returns m) out
      | None \<Rightarrow> Some (ServiceMethodError (''Expected return value from '' @ name m)))"

text \<open>
  The argument check of \<^verbatim>\<open>ServiceMethod.main\<close>.  The second test is
  \<^verbatim>\<open>isinstance(arg, _type)\<close>, where \<^verbatim>\<open>arg\<close> is the declared name, a text.
\<close>

fun check_args :: "(string \<times> pytype) list \<Rightarrow> pydict \<Rightarrow> py_error option" where
  "check_args [] args_dict = None"
| "check_args ((arg, ty) # rest) args_dict =
     (if map_of args_dict arg = None
      then Some (ServiceArgError (''Missing arguments: '' @ arg))
      else if \<not> isinstance (JStr arg) ty
      then Some (ServiceArgError
                   (''Type mismatch error at `'' @ arg @ ''`: expected '' @ type_repr ty
                      @ '', got '' @ type_of_repr (JStr arg)))
      else check_args rest args_dict)"

text \<open>
  \<^verbatim>\<open>main\<close> returns whether the thunk was called together with what the call of
  \<^verbatim>\<open>main\<close> returns or raises.
\<close>

definition main :: "'dev service_method \<Rightarrow> 'dev \<Rightarrow> pydict \<Rightarrow> bool \<times> (py_error + pydict option)" where
  "main m device args_dict =
     (case check_args (args m) args_dict of
        Some e \<Rightarrow> (False, Inl e)
      | None \<Rightarrow>
          (case thunk m device args_dict of
             Inl e \<Rightarrow> (True, Inl e)
           | Inr output \<Rightarrow>
               (case verify_output m output of
                  Some e \<Rightarrow> (True, Inl e)
                | None \<Rightarrow> (True, Inr output))))"

section \<open>Session creation (\<^verbatim>\<open>iotscp/core/basedevice.py\<close>)\<close>

text \<open>
  \<^verbatim>\<open>x in container\<close> and \<^verbatim>\<open>container[key]\<close> for a text \<open>x\<close> and a value that came
  out of \<^verbatim>\<open>json.loads\<close>.
\<close>

fun is_substring :: "string \<Rightarrow> string \<Rightarrow> bool" where
  "is_substring x s = (find_sub s x \<noteq> None)"

fun py_in :: "string \<Rightarrow> json \<Rightarrow> py_error + bool" where
  "py_in x (JArr xs) = Inr (JStr x \<in> set xs)"
| "py_in x (JObj kv) = Inr (map_of kv x \<noteq> None)"
| "py_in x (JStr s) = Inr (is_substring x s)"
| "py_in x v = Inl TypeError"

fun getitem :: "json \<Rightarrow> string \<Rightarrow> py_error + json" where
  "getitem (JObj kv) k = (case map_of kv k of None \<Rightarrow> Inl (KeyError k) | Some v \<Rightarrow> Inr v)"
| "getitem v k = Inl TypeError"

fun first_common :: "string list \<Rightarrow> json \<Rightarrow> py_error + string" where
  "first_common [] external = Inl ValueError"
| "first_common (alg # algs) external =
     (case py_in alg external of
        Inl e \<Rightarrow> Inl e
      | Inr found \<Rightarrow> if found then Inr alg else first_common algs external)"

definition get_common_algorithm :: "string list \<Rightarrow> json \<Rightarrow> string option \<Rightarrow> py_error + string" where
  "get_common_algorithm ALGORITHMS external prefered =
     (case prefered of
        None \<Rightarrow> first_common ALGORITHMS external
      | Some p \<Rightarrow>
          (case py_in p external of
             Inl e \<Rightarrow> Inl e
           | Inr found \<Rightarrow> if found then Inr p else first_common ALGORITHMS external))"

text \<open>
  Modelled from the spec: \<^verbatim>\<open>iotscp/core/sccertificate.py\<close> is not among the sources.
  The spec gives a certificate a uuid and a segment offset and one operation, the
  extraction of the segment at that offset, which fails with a null-certificate error
  when there is nothing to derive a key from.  A certificate is therefore the pair of
  the two values its constructor is called with, and the constructor
  \<^verbatim>\<open>SCCertificate(uuid, offset)\<close> and the method \<^verbatim>\<open>get_key_segment()\<close> are
  parameters that return a value or raise.
\<close>

record sccertificate =
  cert_uuid :: string
  cert_offset :: json

text \<open>
  What \<^verbatim>\<open>create_session\<close> takes from outside the sources: the JSON codec, the list of
  hash algorithms of the machine, the key derivation, the clock, and the certificate class.
\<close>

record environment =
  json_loads :: "nat list \<Rightarrow> py_error + json"
  json_dumps :: "json \<Rightarrow> string"
  ALGORITHMS :: "string list"
  pbkdf2_hmac :: pbkdf2
  clock_now :: int
  clock_elapsed :: int
  SCCertificate :: "string \<Rightarrow> json \<Rightarrow> py_error + sccertificate"
  get_key_segment :: "sccertificate \<Rightarrow> py_error + byte list"

record base_device =
  pref_alg :: "string option"
  sessions :: "string \<rightharpoonup> session"

definition bytes_of :: "string \<Rightarrow> byte list" where
  "bytes_of s = map (\<lambda>c. of_nat (of_char c)) s"

definition SCSession :: "environment \<Rightarrow> sccertificate \<Rightarrow> string \<Rightarrow> py_error + session" where
  "SCSession env cert h =
     (case get_key_segment env cert of
        Inl e \<Rightarrow> Inl e
      | Inr segment \<Rightarrow>
          Inr (session_init (pbkdf2_hmac env) segment h (clock_now env) (clock_elapsed env)))"

text \<open>The body of the \<^verbatim>\<open>try\<close> of \<^verbatim>\<open>create_session\<close>, up to the first exception.\<close>

definition create_session_try ::
  "environment \<Rightarrow> base_device \<Rightarrow> string \<Rightarrow> server_client \<Rightarrow> py_error option \<times> base_device \<times> server_client" where
  "create_session_try env dev uuid sc =
     (case utf8_decode (bytes_of (body (req sc))) of
        None \<Rightarrow> (Some UnicodeDecodeError, dev, sc)
      | Some text \<Rightarrow>
     (case json_loads env text of
        Inl e \<Rightarrow> (Some e, dev, sc)
      | Inr session_args \<Rightarrow>
     (case getitem session_args ''offset'' of
        Inl e \<Rightarrow> (Some e, dev, sc)
      | Inr off \<Rightarrow>
     (case SCCertificate env uuid off of
        Inl e \<Rightarrow> (Some e, dev, sc)
      | Inr cert \<Rightarrow>
     (case getitem session_args ''algorithms'' of
        Inl e \<Rightarrow> (Some e, dev, sc)
      | Inr external \<Rightarrow>
     (case get_common_algorithm (ALGORITHMS env) external (pref_alg dev) of
        Inl e \<Rightarrow> (Some e, dev, sc)
      | Inr algorithm \<Rightarrow>
     (case write_body sc 200 ''text/plain; charset=utf-8'' algorithm of
        Inl e \<Rightarrow> (Some e, dev, sc)
      | Inr sc' \<Rightarrow>
     (case SCSession env cert algorithm of
        Inl e \<Rightarrow> (Some e, dev, sc')
      | Inr s \<Rightarrow> (None, dev\<lparr>sessions := (sessions dev)(uuid \<mapsto> s)\<rparr>, sc')))))))))"

text \<open>
  \<^verbatim>\<open>create_session\<close> with its \<^verbatim>\<open>except\<close> clauses; an exception raised while a
  clause writes its response leaves the function.
\<close>

definition create_session ::
  "environment \<Rightarrow> base_device \<Rightarrow> string \<Rightarrow> server_client \<Rightarrow> py_error option \<times> base_device \<times> server_client" where
  "create_session env dev uuid sc =
     (case create_session_try env dev uuid sc of
        (None, dev', sc') \<Rightarrow> (None, dev', sc')
      | (Some (KeyError k), dev', sc') \<Rightarrow>
          (case write_body sc' 401 ''application/json''
                  (json_dumps env (JObj [(''missing'', JStr k)])) of
             Inl e \<Rightarrow> (Some e, dev', sc')
           | Inr sc'' \<Rightarrow> (None, dev', sc''))
      | (Some NullCertificateError, dev', sc') \<Rightarrow>
          (case write_body sc' 401 ''application/json''
                  (json_dumps env (JObj [(''missing'', JStr ''certificate'')])) of
             Inl e \<Rightarrow> (Some e, dev', sc')
           | Inr sc'' \<Rightarrow> (None, dev', sc''))
      | (Some e, dev', sc') \<Rightarrow>
          (case write_head sc' 500 of
             Inl e' \<Rightarrow> (Some e', dev', sc')
           | Inr sc'' \<Rightarrow> (None, dev', sc'')))"

section \<open>Sample parameters for concrete evaluation\<close>

text \<open>
  The library functions are parameters of the model.  Where a statement is evaluated at a
  concrete input they are instantiated by these: a key derivation that returns \<open>dklen\<close>
  copies of one byte computed from the iteration count and the first byte of the
  password; a JSON decoder given by a finite table of texts; a JSON encoder for objects
  with one text member; a certificate class whose constructor only stores its arguments
  and whose key segment is fixed.
\<close>

definition sample_kdf :: pbkdf2 where
  "sample_kdf h p s it n = replicate n (of_nat it + (if p = [] then 0 else hd p + 1))"


definition table_json_loads :: "(nat list \<times> json) list \<Rightarrow> nat list \<Rightarrow> py_error + json" where
  "table_json_loads tbl t = (case map_of tbl t of None \<Rightarrow> Inl ValueError | Some j \<Rightarrow> Inr j)"

fun flat_json_dumps :: "json \<Rightarrow> string" where
  "flat_json_dumps (JObj [(k, JStr v)]) =
     [CHR 0x7B, CHR 0x22] @ k @ [CHR 0x22, CHR 0x3A, CHR 0x20, CHR 0x22] @ v @ [CHR 0x22, CHR 0x7D]"
| "flat_json_dumps j = ''null''"

definition plain_certificate :: "string \<Rightarrow> json \<Rightarrow> py_error + sccertificate" where
  "plain_certificate u off = Inr \<lparr>cert_uuid = u, cert_offset = off\<rparr>"

definition fixed_key_segment :: "byte list \<Rightarrow> sccertificate \<Rightarrow> py_error + byte list" where
  "fixed_key_segment segment cert = Inr segment"

definition sample_environment :: "(nat list \<times> json) list \<Rightarrow> environment" where
  "sample_environment tbl =
     \<lparr>json_loads = table_json_loads tbl, json_dumps = flat_json_dumps,
      ALGORITHMS = [''sha256''], pbkdf2_hmac = sample_kdf, clock_now = 0, clock_elapsed = 0,
      SCCertificate = plain_certificate, get_key_segment = fixed_key_segment [1, 2, 3]\<rparr>"

definition sample_device :: base_device where
  "sample_device = \<lparr>pref_alg = Some ''sha256'', sessions = Map.empty\<rparr>"

text \<open>The connection object of a \<^verbatim>\<open>POST /iotscp/hello\<close> with uuid \<open>abc\<close> and a given body.\<close>

definition hello_request :: "string \<Rightarrow> server_client" where
  "hello_request b =
     \<lparr>keep_alive = False,
      req = \<lparr>head = ''POST /iotscp/hello HTTP/1.1'' @ [CHR 0x0D, CHR 0x0A] @ ''uuid: abc''
                    @ [CHR 0x0D, CHR 0x0A],
             body = b, reqline = (''POST'', ''/iotscp/hello'', ''HTTP/1.1''),
             headers = [''uuid'' \<mapsto> HStr ''abc'']\<rparr>,
      addr = (''192.168.1.7'', 50000), sent = []\<rparr>"

text \<open>A session with the identity cipher and keys made of one byte each.\<close>

definition sample_session :: "byte \<Rightarrow> byte \<Rightarrow> session" where
  "sample_session a b =
     \<lparr>hashtype = ''sha256'', cipher = map of_nat [0..<256],
      prev_key = replicate 256 a, new_key = replicate 256 b\<rparr>"

section \<open>Properties of the session layer\<close>


lemma is_permutation_init: "is_permutation c \<longleftrightarrow> mset c = mset init_cipher"
  by (simp add: is_permutation_def init_cipher_def)

lemma length_init_cipher: "length init_cipher = 256"
  by (simp add: init_cipher_def)

lemma nth_init_cipher: "i < 256 \<Longrightarrow> init_cipher ! i = of_nat i"
  by (simp add: init_cipher_def)

lemma set_init_cipher: "set init_cipher = UNIV"
proof -
  have "b \<in> set init_cipher" for b :: byte
  proof -
    have "unat b < 256" using unsigned_less [of b] by simp
    then have "init_cipher ! unat b = b" by (simp add: nth_init_cipher)
    moreover have "unat b < length init_cipher" using \<open>unat b < 256\<close> by (simp add: length_init_cipher)
    ultimately show ?thesis by (metis nth_mem)
  qed
  then show ?thesis by auto
qed

lemma distinct_init_cipher: "distinct init_cipher"
proof -
  have "card (set init_cipher) = length init_cipher"
    by (simp add: set_init_cipher length_init_cipher card_word)
  then show ?thesis by (rule card_distinct)
qed

lemma is_permutation_length: "is_permutation c \<Longrightarrow> length c = 256"
  unfolding is_permutation_init using mset_eq_length length_init_cipher by fastforce

lemma is_permutation_distinct: "is_permutation c \<Longrightarrow> distinct c"
  unfolding is_permutation_init using distinct_init_cipher mset_eq_imp_distinct_iff by blast

lemma is_permutation_set: "is_permutation c \<Longrightarrow> set c = UNIV"
  unfolding is_permutation_init using set_init_cipher mset_eq_setD by blast

lemma byte_index: "unat (b :: byte) < 256"
  using unsigned_less [of b] by simp

lemma length_swap_step: "length (swap_step key c i) = length c"
  by (simp add: swap_step_def Let_def)

lemma mset_swap_step:
  assumes "length c = 256" "i < 256"
  shows "mset (swap_step key c i) = mset c"
proof -
  have "unat (key ! i) < length c" using assms byte_index by simp
  moreover have "i < length c" using assms by simp
  ultimately show ?thesis
    unfolding swap_step_def Let_def by (rule mset_swap)
qed

lemma is_permutation_swap_step:
  "is_permutation c \<Longrightarrow> i < 256 \<Longrightarrow> is_permutation (swap_step key c i)"
  using mset_swap_step [of c i key] is_permutation_length [of c]
  by (simp add: is_permutation_init)

lemma is_permutation_randomize_loop:
  "is_permutation c \<Longrightarrow> is_permutation (randomize_loop key c i)"
proof (induction key c i rule: randomize_loop.induct)
  case (1 key c i)
  show ?case
  proof (cases "i < 256")
    case True
    then have "is_permutation (swap_step key c i)"
      using "1.prems" by (rule_tac is_permutation_swap_step)
    with True "1.IH" show ?thesis by (subst randomize_loop.simps) simp
  next
    case False
    with "1.prems" show ?thesis by (subst randomize_loop.simps) simp
  qed
qed

lemma length_encrypt_loop: "length (encrypt_loop c x i) = length x"
proof (induction c x i rule: encrypt_loop.induct)
  case (1 c x i)
  then show ?case by (subst encrypt_loop.simps) simp
qed

lemma nth_encrypt_loop:
  "j < length x \<Longrightarrow>
   encrypt_loop c x i ! j = (if i \<le> j then (c ! unat (x ! j)) XOR (c ! (j mod 256)) else x ! j)"
proof (induction c x i rule: encrypt_loop.induct)
  case (1 c x i)
  show ?case
  proof (cases "i < length x")
    case True
    let ?x' = "x[i := (c ! unat (x ! i)) XOR (c ! (i mod 256))]"
    have "encrypt_loop c x i ! j = encrypt_loop c ?x' (i + 1) ! j"
      using True by (subst encrypt_loop.simps) simp
    also have "\<dots> = (if i + 1 \<le> j then (c ! unat (?x' ! j)) XOR (c ! (j mod 256)) else ?x' ! j)"
      using "1.IH" [OF True] "1.prems" by simp
    also have "\<dots> = (if i \<le> j then (c ! unat (x ! j)) XOR (c ! (j mod 256)) else x ! j)"
      using True "1.prems" by (cases "i = j") auto
    finally show ?thesis .
  next
    case False
    with "1.prems" show ?thesis by (subst encrypt_loop.simps) simp
  qed
qed

lemma key_map_from_notin: "x \<notin> set bs \<Longrightarrow> key_map_from n bs m x = m x"
  by (induction bs arbitrary: n m) auto

lemma key_map_from_nth:
  "distinct bs \<Longrightarrow> j < length bs \<Longrightarrow> key_map_from n bs m (bs ! j) = Some (n + j)"
proof (induction bs arbitrary: n m j)
  case Nil
  then show ?case by simp
next
  case (Cons b bs)
  show ?case
  proof (cases j)
    case 0
    with Cons.prems show ?thesis by (simp add: key_map_from_notin)
  next
    case (Suc j')
    have "key_map_from (n + 1) bs (m(b \<mapsto> n)) (bs ! j') = Some (n + 1 + j')"
      using Cons.prems Suc by (intro Cons.IH) auto
    with Suc show ?thesis by (simp del: fun_upd_apply)
  qed
qed

lemma key_map_nth: "distinct c \<Longrightarrow> j < length c \<Longrightarrow> key_map c (c ! j) = Some j"
  using key_map_from_nth [of c j 0 Map.empty] by (simp add: key_map_def)

lemma key_map_total:
  assumes "is_permutation c"
  shows "\<exists>j < 256. key_map c b = Some j \<and> c ! j = b"
proof -
  have "b \<in> set c" using assms by (simp add: is_permutation_set)
  then obtain j where j: "j < length c" "c ! j = b" by (auto simp: in_set_conv_nth)
  then have "key_map c b = Some j"
    using key_map_nth [of c j] assms by (auto simp: is_permutation_distinct)
  with j assms show ?thesis by (auto simp: is_permutation_length)
qed

lemma decrypt_loop_total:
  "is_permutation c \<Longrightarrow>
   \<exists>out. decrypt_loop c (key_map c) x i = Inr out \<and> length out = length x"
proof (induction c "key_map c" x i rule: decrypt_loop.induct)
  case (1 c x i)
  show ?case
  proof (cases "i < length x")
    case True
    obtain j where j: "j < 256" "key_map c ((x ! i) XOR (c ! (i mod 256))) = Some j"
      using key_map_total [OF "1.prems"] by blast
    then show ?thesis
      using True "1.hyps" [OF True j(2) j(1)] "1.prems"
      by (subst decrypt_loop.simps) simp
  next
    case False
    then show ?thesis by (subst decrypt_loop.simps) simp
  qed
qed

lemma decrypt_loop_inverts:
  assumes "is_permutation c" "length x = length m"
    and "\<forall>j < length m. x ! j = (if i \<le> j then (c ! unat (m ! j)) XOR (c ! (j mod 256)) else m ! j)"
  shows "decrypt_loop c (key_map c) x i = Inr m"
  using assms
proof (induction c "key_map c" x i rule: decrypt_loop.induct)
  case (1 c x i)
  show ?case
  proof (cases "i < length x")
    case True
    have d: "distinct c" and l: "length c = 256"
      using "1.prems"(1) by (simp_all add: is_permutation_distinct is_permutation_length)
    have xi: "x ! i = (c ! unat (m ! i)) XOR (c ! (i mod 256))"
      using True "1.prems" by simp
    have "(x ! i) XOR (c ! (i mod 256)) = c ! unat (m ! i)"
      unfolding xi by (simp add: xor.assoc)
    then have km: "key_map c ((x ! i) XOR (c ! (i mod 256))) = Some (unat (m ! i))"
      using key_map_nth [OF d, of "unat (m ! i)"] l byte_index [of "m ! i"] by simp
    let ?x' = "x[i := of_nat (unat (m ! i))]"
    have "decrypt_loop c (key_map c) ?x' (i + 1) = Inr m"
    proof (rule "1.hyps" [OF True km])
      show "unat (m ! i) < 256" by (rule byte_index)
      show "is_permutation c" by (rule "1.prems")
      show "length ?x' = length m" using "1.prems" by simp
      show "\<forall>j<length m. ?x' ! j =
              (if i + 1 \<le> j then (c ! unat (m ! j)) XOR (c ! (j mod 256)) else m ! j)"
      proof (intro allI impI)
        fix j assume "j < length m"
        then show "?x' ! j = (if i + 1 \<le> j then (c ! unat (m ! j)) XOR (c ! (j mod 256)) else m ! j)"
          using "1.prems"(2,3) True by (cases "i = j") auto
      qed
    qed
    then show ?thesis
      using True km byte_index [of "m ! i"] by (subst decrypt_loop.simps) simp
  next
    case False
    then have "x = m"
      using "1.prems" by (intro nth_equalityI) auto
    with False show ?thesis by (subst decrypt_loop.simps) simp
  qed
qed

lemma decrypt_encrypt_loop:
  assumes "is_permutation c"
  shows "decrypt_loop c (key_map c) (encrypt_loop c m 0) 0 = Inr m"
proof (rule decrypt_loop_inverts [OF assms])
  show "length (encrypt_loop c m 0) = length m" by (rule length_encrypt_loop)
  show "\<forall>j<length m. encrypt_loop c m 0 ! j =
          (if 0 \<le> j then (c ! unat (m ! j)) XOR (c ! (j mod 256)) else m ! j)"
    using nth_encrypt_loop [of _ m c 0] by blast
qed

lemma is_permutation_randomize:
  "is_permutation (cipher s) \<Longrightarrow> is_permutation (cipher (randomize pb el s))"
  by (simp add: randomize_def get_key_def Let_def is_permutation_randomize_loop)

lemma is_permutation_encrypt:
  "is_permutation (cipher s) \<Longrightarrow> is_permutation (cipher (fst (encrypt pb el s inp)))"
  by (simp add: encrypt_def Let_def is_permutation_randomize)

lemma is_permutation_decrypt:
  "is_permutation (cipher s) \<Longrightarrow> is_permutation (cipher (fst (decrypt pb el s ct)))"
  by (simp add: decrypt_def Let_def is_permutation_randomize)

lemma is_permutation_session_step:
  "is_permutation (cipher s) \<Longrightarrow> is_permutation (cipher (session_step pb s op))"
  by (cases op) (simp_all add: is_permutation_encrypt is_permutation_decrypt update_key_def)

lemma is_permutation_run_session:
  "is_permutation (cipher s) \<Longrightarrow> is_permutation (cipher (run_session pb s ops))"
  by (induction ops arbitrary: s) (simp_all add: is_permutation_session_step)

lemma cipher_session_init: "cipher (session_init pb segment h now el) = init_cipher"
  by (simp add: session_init_def Let_def)

lemma swap_step_nth:
  assumes "length c = 256" "i < 256"
  shows "swap_step key c i ! i = c ! unat (key ! i)"
    and "swap_step key c i ! unat (key ! i) = c ! i"
    and "j \<noteq> i \<Longrightarrow> j \<noteq> unat (key ! i) \<Longrightarrow> swap_step key c i ! j = c ! j"
  using assms byte_index [of "key ! i"]
  by (auto simp: swap_step_def Let_def nth_list_update)

text \<open>
  Claim C2.  A session starts with the identity cipher \<open>[0, 1, ..., 255]\<close>; after any
  sequence of \<^verbatim>\<open>encrypt\<close>, \<^verbatim>\<open>decrypt\<close> and \<^verbatim>\<open>update_key\<close> calls, whatever the
  clock and the inputs, its cipher is a permutation of the byte values \<open>0..255\<close>; and one
  pass of the randomization loop exchanges the entries at positions \<open>i\<close> and \<open>key[i]\<close>,
  leaves every other entry alone and keeps the cipher a permutation.
\<close>

theorem cipher_stays_permutation:
  assumes "pbkdf2_contract pb"
  shows "cipher (session_init pb segment h now el) = map of_nat [0..<256]
   \<and> is_permutation (cipher (run_session pb (session_init pb segment h now el) ops))
   \<and> (\<forall>key c i. is_permutation c \<and> i < 256 \<longrightarrow>
         (let k = unat (key ! i); c' = swap_step key c i
          in c' ! i = c ! k \<and> c' ! k = c ! i
             \<and> (\<forall>j. j \<noteq> i \<and> j \<noteq> k \<longrightarrow> c' ! j = c ! j)
             \<and> is_permutation c'))"
proof (intro conjI allI impI)
  show "cipher (session_init pb segment h now el) = map of_nat [0..<256]"
    by (simp add: cipher_session_init init_cipher_def)
  have "is_permutation (cipher (session_init pb segment h now el))"
    by (simp add: cipher_session_init is_permutation_init)
  then show "is_permutation (cipher (run_session pb (session_init pb segment h now el) ops))"
    by (rule is_permutation_run_session)
next
  fix key c :: "byte list" and i :: nat
  assume a: "is_permutation c \<and> i < 256"
  then have l: "length c = 256" and i: "i < 256" by (simp_all add: is_permutation_length)
  show "let k = unat (key ! i); c' = swap_step key c i
        in c' ! i = c ! k \<and> c' ! k = c ! i
           \<and> (\<forall>j. j \<noteq> i \<and> j \<noteq> k \<longrightarrow> c' ! j = c ! j) \<and> is_permutation c'"
    unfolding Let_def
    using swap_step_nth [OF l i, where key = key] is_permutation_swap_step [of c i key] a
    by blast
qed

lemma encrypt_bytes:
  "encrypt pb el s (Bytearray m) =
     (let s' = (if prev_key s = new_key s then randomize pb el s else s)
      in (s', encrypt_loop (cipher s') m 0))"
  by (simp add: encrypt_def Let_def)

lemma decrypt_of_encrypt_loop:
  assumes "is_permutation (cipher s')" "utf8_decode m = Some text"
    and "(if prev_key s = new_key s then randomize pb el s else s) = s'"
  shows "snd (decrypt pb el s (encrypt_loop (cipher s') m 0)) = Inr text"
  using assms decrypt_encrypt_loop [OF assms(1), of m]
  by (simp add: decrypt_def Let_def)

text \<open>
  Claim C1.  Let the cipher be a permutation and \<open>m\<close> be well-formed UTF-8 for the text
  \<open>text\<close>.  \<^verbatim>\<open>encrypt\<close> sends the byte at position \<open>i\<close> to
  \<open>cipher[m[i]] XOR cipher[i mod 256]\<close>; XORing that with \<open>cipher[i mod 256]\<close> and looking
  the result up in the inverse map gives \<open>m[i]\<close> back; so \<^verbatim>\<open>decrypt\<close> of the ciphertext
  returns \<open>text\<close>, both for a peer whose session is in the state \<open>s\<close> the sender was in when
  it encrypted (same cipher, same keys, same clock segment) and for the session itself
  right after the call, provided that call left the two keys different.
\<close>

theorem decrypt_encrypt_roundtrip:
  assumes "is_permutation (cipher s)" and "utf8_decode m = Some text"
    and "pbkdf2_contract pb"
  shows "(let (s1, ct) = encrypt pb el s (Bytearray m)
          in length ct = length m
             \<and> (\<forall>i < length m. ct ! i = (cipher s1 ! unat (m ! i)) XOR (cipher s1 ! (i mod 256)))
             \<and> (\<forall>i < length m.
                   key_map (cipher s1) ((ct ! i) XOR (cipher s1 ! (i mod 256))) = Some (unat (m ! i)))
             \<and> snd (decrypt pb el s ct) = Inr text
             \<and> (prev_key s1 \<noteq> new_key s1 \<longrightarrow> (\<forall>el'. snd (decrypt pb el' s1 ct) = Inr text)))"
proof -
  define s' where "s' = (if prev_key s = new_key s then randomize pb el s else s)"
  define ct where "ct = encrypt_loop (cipher s') m 0"
  have enc: "encrypt pb el s (Bytearray m) = (s', ct)"
    by (simp add: encrypt_bytes s'_def ct_def Let_def)
  have p: "is_permutation (cipher s')"
    using assms(1) by (simp add: s'_def is_permutation_randomize)
  have len: "length ct = length m" by (simp add: ct_def length_encrypt_loop)
  have nth: "\<forall>i < length m. ct ! i = (cipher s' ! unat (m ! i)) XOR (cipher s' ! (i mod 256))"
    by (simp add: ct_def nth_encrypt_loop)
  have km: "\<forall>i < length m.
      key_map (cipher s') ((ct ! i) XOR (cipher s' ! (i mod 256))) = Some (unat (m ! i))"
  proof (intro allI impI)
    fix i assume "i < length m"
    then have "(ct ! i) XOR (cipher s' ! (i mod 256)) = cipher s' ! unat (m ! i)"
      using nth by (simp add: xor.assoc)
    then show "key_map (cipher s') ((ct ! i) XOR (cipher s' ! (i mod 256))) = Some (unat (m ! i))"
      using key_map_nth [of "cipher s'" "unat (m ! i)"] p byte_index [of "m ! i"]
      by (simp add: is_permutation_distinct is_permutation_length)
  qed
  have peer: "snd (decrypt pb el s ct) = Inr text"
    unfolding ct_def by (rule decrypt_of_encrypt_loop [OF p assms(2)]) (simp add: s'_def)
  have same: "prev_key s' \<noteq> new_key s' \<longrightarrow> (\<forall>el'. snd (decrypt pb el' s' ct) = Inr text)"
  proof (intro impI allI)
    fix el' assume "prev_key s' \<noteq> new_key s'"
    then show "snd (decrypt pb el' s' ct) = Inr text"
      unfolding ct_def by (intro decrypt_of_encrypt_loop [OF p assms(2)]) simp
  qed
  show ?thesis
    unfolding enc Let_def prod.case using len nth km peer same by blast
qed

text \<open>
  Claim C10.  When the cipher is a permutation, every byte \<open>b XOR cipher[i mod 256]\<close> is a
  key of the inverse map, bound to a position below 256; and \<^verbatim>\<open>decrypt\<close> of any
  ciphertext either returns a text or raises \<^verbatim>\<open>UnicodeDecodeError\<close>, never
  \<^verbatim>\<open>KeyError\<close>.
\<close>

theorem decrypt_lookup_total:
  assumes "is_permutation (cipher s)" and "pbkdf2_contract pb"
  shows "(\<forall>b i. \<exists>j < 256. key_map (cipher s) (b XOR (cipher s ! (i mod 256))) = Some j)
         \<and> (\<forall>el ct. snd (decrypt pb el s ct) \<in> range Inr \<union> {Inl UnicodeDecodeError})"
proof (intro conjI allI)
  fix b i
  show "\<exists>j < 256. key_map (cipher s) (b XOR (cipher s ! (i mod 256))) = Some j"
    using key_map_total [OF assms(1)] by blast
next
  fix el ct
  define s' where "s' = (if prev_key s = new_key s then randomize pb el s else s)"
  have "is_permutation (cipher s')"
    using assms by (simp add: s'_def is_permutation_randomize)
  then obtain out where "decrypt_loop (cipher s') (key_map (cipher s')) ct 0 = Inr out"
    using decrypt_loop_total by blast
  then have "snd (decrypt pb el s ct) =
      (case utf8_decode out of None \<Rightarrow> Inl UnicodeDecodeError | Some text \<Rightarrow> Inr text)"
    by (simp add: decrypt_def Let_def s'_def)
  then show "snd (decrypt pb el s ct) \<in> range Inr \<union> {Inl UnicodeDecodeError}"
    by (cases "utf8_decode out") auto
qed

lemma new_key_randomize: "new_key (randomize pb el s) = derived_key pb s el"
  by (simp add: randomize_def get_key_def Let_def)

lemma prev_key_randomize: "prev_key (randomize pb el s) = prev_key s"
  by (simp add: randomize_def get_key_def Let_def)







subsection \<open>The session theorems at concrete inputs\<close>

lemma sample_kdf_contract: "pbkdf2_contract sample_kdf"
  by (simp add: pbkdf2_contract_def sample_kdf_def)

lemma sample_session_permutation: "is_permutation (cipher (sample_session a b))"
  by (simp add: is_permutation_def sample_session_def)

theorem decrypt_encrypt_roundtrip_witness:
  "is_permutation (cipher (sample_session 1 1))
   \<and> utf8_decode [0x68, 0x69] = Some [104, 105]
   \<and> pbkdf2_contract sample_kdf
   \<and> snd (decrypt sample_kdf 3 (sample_session 1 1)
            (snd (encrypt sample_kdf 3 (sample_session 1 1) (Bytearray [0x68, 0x69]))))
       = Inr [104, 105]
   \<and> prev_key (fst (encrypt sample_kdf 3 (sample_session 1 1) (Bytearray [0x68, 0x69])))
       \<noteq> new_key (fst (encrypt sample_kdf 3 (sample_session 1 1) (Bytearray [0x68, 0x69])))
   \<and> snd (decrypt sample_kdf 9
            (fst (encrypt sample_kdf 3 (sample_session 1 1) (Bytearray [0x68, 0x69])))
            (snd (encrypt sample_kdf 3 (sample_session 1 1) (Bytearray [0x68, 0x69]))))
       = Inr [104, 105]"
proof -
  let ?s = "sample_session 1 1"
  let ?m = "[0x68, 0x69] :: byte list"
  note p = sample_session_permutation [of 1 1]
  have u: "utf8_decode ?m = Some [104, 105]" by simp
  note c = sample_kdf_contract
  have "fst (encrypt sample_kdf 3 ?s (Bytearray ?m)) = randomize sample_kdf 3 ?s"
    by (simp add: encrypt_def Let_def sample_session_def)
  then have ne: "prev_key (fst (encrypt sample_kdf 3 ?s (Bytearray ?m)))
                   \<noteq> new_key (fst (encrypt sample_kdf 3 ?s (Bytearray ?m)))"
    by (simp add: prev_key_randomize new_key_randomize derived_key_def sample_kdf_def
          sample_session_def)
  have peer: "snd (decrypt sample_kdf 3 ?s (snd (encrypt sample_kdf 3 ?s (Bytearray ?m))))
                = Inr [104, 105]"
    using decrypt_encrypt_roundtrip [OF p u c, of 3] by (simp add: split_beta Let_def)
  have "prev_key (fst (encrypt sample_kdf 3 ?s (Bytearray ?m)))
          \<noteq> new_key (fst (encrypt sample_kdf 3 ?s (Bytearray ?m)))
        \<longrightarrow> (\<forall>el'. snd (decrypt sample_kdf el' (fst (encrypt sample_kdf 3 ?s (Bytearray ?m)))
                       (snd (encrypt sample_kdf 3 ?s (Bytearray ?m)))) = Inr [104, 105])"
    using decrypt_encrypt_roundtrip [OF p u c, of 3] by (simp add: split_beta Let_def)
  with ne have same: "snd (decrypt sample_kdf 9 (fst (encrypt sample_kdf 3 ?s (Bytearray ?m)))
                       (snd (encrypt sample_kdf 3 ?s (Bytearray ?m)))) = Inr [104, 105]"
    by blast
  show ?thesis
    using p u c peer ne same by blast
qed

theorem cipher_stays_permutation_witness:
  "pbkdf2_contract sample_kdf
   \<and> is_permutation (map of_nat [0..<256]) \<and> (3::nat) < 256
   \<and> swap_step (replicate 256 7) (map of_nat [0..<256]) 3 ! 3 = 7
   \<and> swap_step (replicate 256 7) (map of_nat [0..<256]) 3 ! 7 = 3
   \<and> swap_step (replicate 256 7) (map of_nat [0..<256]) 3 ! 5 = 5
   \<and> is_permutation (swap_step (replicate 256 7) (map of_nat [0..<256]) 3)
   \<and> is_permutation (cipher (run_session sample_kdf
         (session_init sample_kdf [1, 2, 3] ''sha256'' 1700000000 1)
         [UpdateKey, Encrypt 2 (Text [104, 105]), UpdateKey, Decrypt 7 [0x10, 0x20]]))"
proof -
  note c = sample_kdf_contract
  have p: "is_permutation (map of_nat [0..<256])" by (simp add: is_permutation_def)
  note t = cipher_stays_permutation [OF c, of "[1, 2, 3]" "''sha256''" 1700000000 1
      "[UpdateKey, Encrypt 2 (Text [104, 105]), UpdateKey, Decrypt 7 [0x10, 0x20]]"]
  from t have run: "is_permutation (cipher (run_session sample_kdf
         (session_init sample_kdf [1, 2, 3] ''sha256'' 1700000000 1)
         [UpdateKey, Encrypt 2 (Text [104, 105]), UpdateKey, Decrypt 7 [0x10, 0x20]]))"
    by blast
  from t have "is_permutation (map of_nat [0..<256]) \<and> (3::nat) < 256 \<longrightarrow>
         (let k = unat ((replicate 256 (7::byte)) ! 3);
              c' = swap_step (replicate 256 7) (map of_nat [0..<256]) 3
          in c' ! 3 = (map of_nat [0..<256]) ! k \<and> c' ! k = (map of_nat [0..<256]) ! 3
             \<and> (\<forall>j. j \<noteq> 3 \<and> j \<noteq> k \<longrightarrow> c' ! j = (map of_nat [0..<256]) ! j)
             \<and> is_permutation c')"
    by blast
  with p have sw: "swap_step (replicate 256 7) (map of_nat [0..<256]) 3 ! 3 = (7::byte)
      \<and> swap_step (replicate 256 7) (map of_nat [0..<256]) 3 ! 7 = (3::byte)
      \<and> swap_step (replicate 256 7) (map of_nat [0..<256]) 3 ! 5 = (5::byte)
      \<and> is_permutation (swap_step (replicate 256 7) (map of_nat [0..<256]) 3)"
    by (simp add: Let_def)
  from c p run sw show ?thesis by simp
qed

theorem decrypt_lookup_total_witness:
  "is_permutation (cipher (sample_session 1 2))
   \<and> pbkdf2_contract sample_kdf
   \<and> (\<exists>j < 256. key_map (cipher (sample_session 1 2))
                    (0xFF XOR (cipher (sample_session 1 2) ! (300 mod 256))) = Some j)
   \<and> snd (decrypt sample_kdf 4 (sample_session 1 2) [0xFF, 0xFE])
       \<in> range Inr \<union> {Inl UnicodeDecodeError}"
proof -
  note p = sample_session_permutation [of 1 2]
  note c = sample_kdf_contract
  from decrypt_lookup_total [OF p c]
  have "(\<exists>j < 256. key_map (cipher (sample_session 1 2))
                    (0xFF XOR (cipher (sample_session 1 2) ! (300 mod 256))) = Some j)"
    and "snd (decrypt sample_kdf 4 (sample_session 1 2) [0xFF, 0xFE])
           \<in> range Inr \<union> {Inl UnicodeDecodeError}"
    by blast+
  with p c show ?thesis by blast
qed



section \<open>Properties of service methods\<close>

text \<open>
  What the argument check of \<^verbatim>\<open>main\<close> decides: the thunk is called exactly when every
  declared name is a key of the argument dict and every declared type is \<^verbatim>\<open>str\<close>, the
  type of the names.  The values bound to the names are never looked at.
\<close>

lemma check_args_None_iff:
  "check_args as args_dict = None \<longleftrightarrow>
     (\<forall>(arg, ty) \<in> set as. map_of args_dict arg \<noteq> None \<and> ty = TStr)"
  by (induction as) (auto split: if_splits)

lemma main_calls_thunk_iff:
  "fst (main m device args_dict) \<longleftrightarrow>
     (\<forall>(arg, ty) \<in> set (args m). map_of args_dict arg \<noteq> None \<and> ty = TStr)"
proof (cases "check_args (args m) args_dict")
  case None
  then show ?thesis
    using check_args_None_iff [of "args m" args_dict]
    by (simp add: main_def split: sum.splits option.splits)
next
  case (Some e)
  then show ?thesis
    using check_args_None_iff [of "args m" args_dict]
    by (simp add: main_def)
qed

text \<open>
  Claim C4 says the thunk is invoked if and only if every declared name is in the bag and
  its value has the declared type.  The code tests the name instead of the value: a method
  declaring \<open>level: int\<close>, called with \<open>{"level": 5}\<close>, raises \<^verbatim>\<open>ServiceArgError\<close>
  without calling the thunk, although the value is an \<^verbatim>\<open>int\<close>; a method declaring
  \<open>label: str\<close>, called with \<open>{"label": 5}\<close>, calls the thunk although the value is not
  a \<^verbatim>\<open>str\<close>.
\<close>

theorem main_checks_name_not_value:
  "isinstance (JInt 5) TInt
   \<and> main \<lparr>name = ''SetLevel'', thunk = (\<lambda>device kwargs. Inr (Some [])),
            args = [(''level'', TInt)], returns = []\<rparr> () [(''level'', JInt 5)]
       = (False, Inl (ServiceArgError
            (''Type mismatch error at `level`: expected <type '' @ [CHR 0x27] @ ''int''
               @ [CHR 0x27] @ ''>, got <type '' @ [CHR 0x27] @ ''str'' @ [CHR 0x27] @ ''>'')))
   \<and> \<not> isinstance (JInt 5) TStr
   \<and> main \<lparr>name = ''SetLabel'', thunk = (\<lambda>device kwargs. Inr (Some [])),
            args = [(''label'', TStr)], returns = []\<rparr> () [(''label'', JInt 5)]
       = (True, Inr (Some []))"
  by (simp add: main_def verify_output_def)

section \<open>Properties of the HTTP engine\<close>

subsection \<open>Searching and reading\<close>

lemma take_eq_imp_le:
  assumes "take (length sub) xs = sub"
  shows "length sub \<le> length xs"
proof -
  have "length (take (length sub) xs) = length sub" using assms by simp
  then show ?thesis by (simp add: min_def split: if_splits)
qed

lemma take_append_le: "n \<le> length xs \<Longrightarrow> take n (xs @ ys) = take n xs"
  by simp

lemma find_sub_bound: "find_sub xs sub = Some i \<Longrightarrow> i + length sub \<le> length xs"
proof (induction xs arbitrary: i)
  case Nil
  then show ?case by (simp split: if_splits)
next
  case (Cons c cs)
  show ?case
  proof (cases "take (length sub) (c # cs) = sub")
    case True
    then have "length sub \<le> length (c # cs)"
      by (rule take_eq_imp_le)
    with True Cons.prems show ?thesis by simp
  next
    case False
    with Cons.prems obtain j where "find_sub cs sub = Some j" "i = Suc j" by auto
    with Cons.IH [of j] show ?thesis by simp
  qed
qed

lemma find_sub_append_Some:
  "find_sub xs sub = Some i \<Longrightarrow> find_sub (xs @ ys) sub = Some i"
proof (induction xs arbitrary: i)
  case Nil
  then show ?case by (cases ys) (simp_all split: if_splits)
next
  case (Cons c cs)
  show ?case
  proof (cases "take (length sub) (c # cs) = sub")
    case True
    then have "length sub \<le> length (c # cs)"
      by (rule take_eq_imp_le)
    then have "take (length sub) ((c # cs) @ ys) = take (length sub) (c # cs)"
      by (rule take_append_le)
    with True Cons.prems show ?thesis by simp
  next
    case False
    with Cons.prems obtain j where j: "find_sub cs sub = Some j" "i = Suc j" by auto
    then have "length sub \<le> length (c # cs)" using find_sub_bound [of cs sub j] by simp
    then have "take (length sub) ((c # cs) @ ys) = take (length sub) (c # cs)"
      by (rule take_append_le)
    with False j Cons.IH [of j] show ?thesis by simp
  qed
qed

lemma find_sub_replicate:
  "z \<noteq> a \<Longrightarrow>
   find_sub (replicate k z @ ys) (a # sub) = map_option ((+) k) (find_sub ys (a # sub))"
proof (induction k)
  case 0
  then show ?case by (simp add: option.map_ident)
next
  case (Suc k)
  then show ?case by (simp add: option.map_comp comp_def)
qed

lemma find_sub_append_None:
  "find_sub (xs @ take (length sub - 1) ys) sub = None \<Longrightarrow>
   find_sub (xs @ ys) sub = map_option ((+) (length xs)) (find_sub ys sub)"
proof (induction xs)
  case Nil
  then show ?case by (simp add: option.map_ident)
next
  case (Cons c cs)
  let ?n = "length sub"
  from Cons.prems have ne: "take ?n (c # cs @ take (?n - 1) ys) \<noteq> sub"
    and rest: "find_sub (cs @ take (?n - 1) ys) sub = None"
    by (auto split: if_splits)
  have "take ?n (c # cs @ ys) = take ?n (c # cs @ take (?n - 1) ys)"
    by (cases ?n) (simp_all add: take_Cons')
  with ne have "take ?n (c # cs @ ys) \<noteq> sub" by simp
  with Cons.IH [OF rest] show ?case by (simp add: option.map_comp comp_def)
qed

lemma recv_into_chunk:
  "length d \<le> n \<Longrightarrow>
   recv_into (Chunk d # es) (bytearray n) = (Inr (length d, d @ bytearray (n - length d)), es)"
  by (simp add: bytearray_def)

subsection \<open>Heads\<close>

text \<open>A head that arrives whole in a first read shorter than the buffer is returned as sent.\<close>

lemma get_head_single_read:
  assumes "0 < length d" "length d < BUFSIZE" "find_sub d CRLFCRLF = Some i"
    and "decode_http_head (take (i + 2) d) = Inr h"
  shows "get_head (Chunk d # es) = Some (Inr (h, drop (i + 4) d), es)"
proof -
  let ?buf = "d @ bytearray (BUFSIZE - length d)"
  have r: "recv_into (Chunk d # es) (bytearray BUFSIZE) = (Inr (length d, ?buf), es)"
    using assms(2) by (intro recv_into_chunk) simp
  have f: "find_sub ?buf CRLFCRLF = Some i"
    using assms(3) by (rule find_sub_append_Some)
  have b: "i + 4 \<le> length d"
    using find_sub_bound [OF assms(3)] by (simp add: CRLFCRLF_def)
  then have t: "take (i + 2) ?buf = take (i + 2) d" by simp
  have s: "slice ?buf (i + 4) (length d) = drop (i + 4) d"
    using b by (simp add: slice_def)
  show ?thesis
    unfolding get_head_def r using assms(1,2,4) b by (simp add: f slice_def)
qed

lemma version_error_request:
  "http_request_init (Chunk (''GET /'' @ CRLFCRLF) # es) = Some (Inl VersionError, es)"
proof -
  have "get_head (Chunk (''GET /'' @ CRLFCRLF) # es)
          = Some (Inr (''GET /'' @ [CHR 0x0D, CHR 0x0A], []), es)"
    by (rule get_head_single_read [where i = 5, THEN trans])
       (simp_all add: CRLFCRLF_def BUFSIZE_def decode_http_head_def)
  moreover have "rmatch RE_REQLINE (''GET /'' @ [CHR 0x0D, CHR 0x0A]) = None"
    by (simp add: RE_REQLINE_def lazy_more.simps)
  ultimately have "http_head_init (Chunk (''GET /'' @ CRLFCRLF) # es) = Some (Inl VersionError, es)"
    by (simp add: http_head_init_def)
  then show ?thesis by (simp add: http_request_init_def)
qed

lemma handle_one_request_version_error:
  assumes "http_request_init client = Some (Inl VersionError, client')"
  shows "handle_one_request handles client a
           = Some ((Inl (UnboundLocalError ''serverclient''), []), client')"
  using assms by (simp add: handle_one_request_def)

text \<open>
  Claim C6 says that a request whose head parsing raises \<^verbatim>\<open>VersionError\<close> is answered
  with 505 and that \<^verbatim>\<open>handle_one_request\<close> returns keep-alive false.  The exception is
  raised inside \<^verbatim>\<open>HttpRequest(client)\<close>, before \<^verbatim>\<open>serverclient\<close> is assigned, and
  the \<^verbatim>\<open>except VersionError\<close> clause reads \<^verbatim>\<open>serverclient\<close>: for the request
  \<^verbatim>\<open>GET /\<close> (no protocol field) nothing is written and the call does not return, it
  raises \<^verbatim>\<open>UnboundLocalError\<close>.
\<close>

theorem version_error_writes_nothing:
  "http_request_init [Chunk (''GET /'' @ CRLFCRLF)] = Some (Inl VersionError, [])
   \<and> handle_one_request handles [Chunk (''GET /'' @ CRLFCRLF)] a
       = Some ((Inl (UnboundLocalError ''serverclient''), []), [])"
  using version_error_request [of "[]"] by (simp add: handle_one_request_def)

text \<open>
  A first read that is shorter than the buffer and holds no separator: the loop starts
  from a copy of the whole buffer, so the zero bytes behind the data stay in the head.
\<close>

lemma find_sub_zeros: "find_sub (replicate n (CHR 0x00)) CRLFCRLF = None"
  using find_sub_replicate [of "CHR 0x00" "CHR 0x0D" n "[]" "[CHR 0x0A, CHR 0x0D, CHR 0x0A]"]
  by (simp add: CRLFCRLF_def)

lemma find_sub_nil_sep: "find_sub [] CRLFCRLF = None"
  by (simp add: CRLFCRLF_def)

lemma find_sub_zeros_append:
  "find_sub (replicate n (CHR 0x00) @ ys) CRLFCRLF = map_option ((+) n) (find_sub ys CRLFCRLF)"
  unfolding CRLFCRLF_def by (rule find_sub_replicate) simp

lemma find_sub_padded:
  assumes "find_sub (d @ [CHR 0x00, CHR 0x00, CHR 0x00]) CRLFCRLF = None" "3 \<le> n"
  shows "find_sub (d @ replicate n (CHR 0x00) @ ys) CRLFCRLF
           = map_option (\<lambda>i. length d + n + i) (find_sub ys CRLFCRLF)"
proof -
  have "take (length CRLFCRLF - 1) (replicate n (CHR 0x00) @ ys) = [CHR 0x00, CHR 0x00, CHR 0x00]"
    using assms(2) by (simp add: CRLFCRLF_def min_def)
  then have "find_sub (d @ take (length CRLFCRLF - 1) (replicate n (CHR 0x00) @ ys)) CRLFCRLF = None"
    using assms(1) by simp
  then have "find_sub (d @ replicate n (CHR 0x00) @ ys) CRLFCRLF
      = map_option ((+) (length d)) (find_sub (replicate n (CHR 0x00) @ ys) CRLFCRLF)"
    by (rule find_sub_append_None)
  then show ?thesis
    by (simp add: find_sub_zeros_append option.map_comp comp_def add.assoc)
qed

lemma get_head_two_reads:
  assumes d1: "0 < length d1" "length d1 + 3 \<le> BUFSIZE"
    and nosep: "find_sub (d1 @ [CHR 0x00, CHR 0x00, CHR 0x00]) CRLFCRLF = None"
    and d2: "length d2 \<le> BUFSIZE" "find_sub d2 CRLFCRLF = Some i"
    and ascii: "list_all (\<lambda>c. (of_char c :: nat) < 128) (d1 @ take (i + 2) d2)"
  shows "get_head (Chunk d1 # Chunk d2 # es)
           = Some (Inr (d1 @ bytearray (BUFSIZE - length d1) @ take (i + 2) d2,
                        drop (i + 4) d2), es)"
proof -
  let ?n = "BUFSIZE - length d1"
  let ?buf = "d1 @ bytearray ?n"
  have n3: "3 \<le> ?n" using d1 by simp
  have r1: "recv_into (Chunk d1 # Chunk d2 # es) (bytearray BUFSIZE)
              = (Inr (length d1, ?buf), Chunk d2 # es)"
    using d1 by (intro recv_into_chunk) simp
  have f1: "find_sub ?buf CRLFCRLF = None"
    using find_sub_padded [OF nosep n3, of "[]"]
    by (simp only: find_sub_nil_sep option.map append_Nil2 bytearray_def)
  have first: "get_head (Chunk d1 # Chunk d2 # es) = get_head_loop (Chunk d2 # es) ?buf ?buf"
    unfolding get_head_def r1 using d1 by (simp add: f1)
  have lb: "length ?buf = BUFSIZE" using d1 by (simp add: bytearray_def)
  have r2: "recv_into (Chunk d2 # es) ?buf = (Inr (length d2, d2 @ drop (length d2) ?buf), es)"
    using d2(1) lb by simp
  have f2: "find_sub (?buf @ d2) CRLFCRLF = Some (length d1 + ?n + i)"
    using find_sub_padded [OF nosep n3, of d2] d2(2) by (simp add: bytearray_def)
  have b: "i + 4 \<le> length d2"
    using find_sub_bound [OF d2(2)] by (simp add: CRLFCRLF_def)
  have hd: "take (length d1 + ?n + i + 2) (?buf @ d2) = ?buf @ take (i + 2) d2"
    by (simp add: bytearray_def)
  have bd: "drop (length d1 + ?n + i + 4) (?buf @ d2) = drop (i + 4) d2"
    by (simp add: bytearray_def)
  have dec: "decode_http_head (?buf @ take (i + 2) d2) = Inr (?buf @ take (i + 2) d2)"
    using ascii by (auto simp: decode_http_head_def bytearray_def list_all_iff)
  have "get_head_loop (Chunk d2 # es) ?buf ?buf
          = Some (Inr (?buf @ take (i + 2) d2, drop (i + 4) d2), es)"
  proof -
    have tk: "take (length d2) (d2 @ drop (length d2) ?buf) = d2" by simp
    have lt: "length ?buf < 65537" unfolding lb by (simp add: BUFSIZE_def)
    show ?thesis
      apply (subst get_head_loop.simps)
      apply (simp only: lt if_True r2 prod.case sum.case tk f2 option.case hd bd dec)
      done
  qed
  with first show ?thesis by simp
qed


text \<open>
  Claim C8 says that when the separator is found within the cap \<^verbatim>\<open>get_head\<close> returns
  the decoded head and the bytes after the separator.  For a head sent in two pieces,
  \<^verbatim>\<open>GET / HTTP/1.1\r\n\<close> and then \<^verbatim>\<open>Host: x\r\n\r\nBODY\<close>, the separator is at
  offset 23 of the 31 bytes sent, but the head returned is the first piece, 4080 zero
  bytes and the second piece's header line: not the head that was sent.
\<close>

theorem get_head_pads_partial_first_read:
  "get_head [Chunk (''GET / HTTP/1.1'' @ [CHR 0x0D, CHR 0x0A]),
             Chunk (''Host: x'' @ CRLFCRLF @ ''BODY'')]
     = Some (Inr (''GET / HTTP/1.1'' @ [CHR 0x0D, CHR 0x0A] @ replicate 4080 (CHR 0x00)
                    @ ''Host: x'' @ [CHR 0x0D, CHR 0x0A], ''BODY''), [])
   \<and> find_sub (''GET / HTTP/1.1'' @ [CHR 0x0D, CHR 0x0A] @ ''Host: x'' @ CRLFCRLF @ ''BODY'')
         CRLFCRLF = Some 23
   \<and> ''GET / HTTP/1.1'' @ [CHR 0x0D, CHR 0x0A] @ replicate 4080 (CHR 0x00)
         @ ''Host: x'' @ [CHR 0x0D, CHR 0x0A]
       \<noteq> ''GET / HTTP/1.1'' @ [CHR 0x0D, CHR 0x0A] @ ''Host: x'' @ [CHR 0x0D, CHR 0x0A]"
proof (intro conjI)
  show "get_head [Chunk (''GET / HTTP/1.1'' @ [CHR 0x0D, CHR 0x0A]),
             Chunk (''Host: x'' @ CRLFCRLF @ ''BODY'')]
     = Some (Inr (''GET / HTTP/1.1'' @ [CHR 0x0D, CHR 0x0A] @ replicate 4080 (CHR 0x00)
                    @ ''Host: x'' @ [CHR 0x0D, CHR 0x0A], ''BODY''), [])"
    by (rule get_head_two_reads [where i = 7, THEN trans])
       (simp_all add: CRLFCRLF_def BUFSIZE_def bytearray_def)
  show "find_sub (''GET / HTTP/1.1'' @ [CHR 0x0D, CHR 0x0A] @ ''Host: x'' @ CRLFCRLF @ ''BODY'')
         CRLFCRLF = Some 23"
    by (simp add: CRLFCRLF_def)
  show "''GET / HTTP/1.1'' @ [CHR 0x0D, CHR 0x0A] @ replicate 4080 (CHR 0x00)
         @ ''Host: x'' @ [CHR 0x0D, CHR 0x0A]
       \<noteq> ''GET / HTTP/1.1'' @ [CHR 0x0D, CHR 0x0A] @ ''Host: x'' @ [CHR 0x0D, CHR 0x0A]"
  proof
    assume "''GET / HTTP/1.1'' @ [CHR 0x0D, CHR 0x0A] @ replicate 4080 (CHR 0x00)
         @ ''Host: x'' @ [CHR 0x0D, CHR 0x0A]
       = ''GET / HTTP/1.1'' @ [CHR 0x0D, CHR 0x0A] @ ''Host: x'' @ [CHR 0x0D, CHR 0x0A]"
    then have "length (''GET / HTTP/1.1'' @ [CHR 0x0D, CHR 0x0A] @ replicate 4080 (CHR 0x00)
         @ ''Host: x'' @ [CHR 0x0D, CHR 0x0A])
       = length (''GET / HTTP/1.1'' @ [CHR 0x0D, CHR 0x0A] @ ''Host: x'' @ [CHR 0x0D, CHR 0x0A])"
      by (rule arg_cong)
    then show False by simp
  qed
qed

subsection \<open>Receiving a body\<close>

lemma recv_body_loop_two_reads:
  "recv_body_loop [Chunk ''ab'', Chunk ''cd''] (bytearray BUFSIZE) 0 4 []
     = Some (Inr (''abcd'' @ [CHR 0x00, CHR 0x00]), [])"
  apply (subst recv_body_loop.simps)
  apply (simp add: bytearray_def BUFSIZE_def)
  apply (subst recv_body_loop.simps)
  apply (simp add: numeral_eq_Suc)
  apply (subst recv_body_loop.simps)
  apply simp
  done

lemma post_head:
  "get_head (Chunk (''POST /x HTTP/1.1'' @ [CHR 0x0D, CHR 0x0A] @ ''Content-Length: 4'' @ CRLFCRLF) # es)
     = Some (Inr (''POST /x HTTP/1.1'' @ [CHR 0x0D, CHR 0x0A] @ ''Content-Length: 4''
                    @ [CHR 0x0D, CHR 0x0A], []), es)"
  by (rule get_head_single_read [where i = 35, THEN trans])
     (simp_all add: CRLFCRLF_def BUFSIZE_def decode_http_head_def)

lemma post_reqline:
  "rmatch RE_REQLINE (''POST /x HTTP/1.1'' @ [CHR 0x0D, CHR 0x0A] @ ''Content-Length: 4''
                    @ [CHR 0x0D, CHR 0x0A])
     = Some ([''POST'', ''/x'', ''HTTP/1.1''], ''Content-Length: 4'' @ [CHR 0x0D, CHR 0x0A])"
  by (simp add: RE_REQLINE_def lazy_more.simps)


lemma post_headers_matches:
  "finditer RE_HEADERS (''POST /x HTTP/1.1'' @ [CHR 0x0D, CHR 0x0A] @ ''Content-Length: 4''
                    @ [CHR 0x0D, CHR 0x0A])
     = [[''Content-Length'', ''4'']]"
  by (simp add: RE_HEADERS_def lazy_more.simps finditer.simps)

lemma py_int_4: "py_int ''4'' = Inr 4"
  by (simp add: py_int_def strip_def int_space_def digits_value_def is_digit_def)

lemma post_headers:
  "parse_headers (''POST /x HTTP/1.1'' @ [CHR 0x0D, CHR 0x0A] @ ''Content-Length: 4''
                    @ [CHR 0x0D, CHR 0x0A])
     = Inr [''content-length'' \<mapsto> HNum 4]"
  using post_headers_matches py_int_4
  by (simp add: parse_headers_def lower_def lower_char_def NUMBER_TYPES_def parse_number_def)

text \<open>
  Claim C5 says that however the body is split across reads, the stored body is the
  bytes sent and has the length \<^verbatim>\<open>content-length\<close> announces.  For a POST with
  \<^verbatim>\<open>Content-Length: 4\<close> whose body \<^verbatim>\<open>abcd\<close> arrives as \<^verbatim>\<open>ab\<close> and then
  \<^verbatim>\<open>cd\<close>, the second pass appends \<^verbatim>\<open>buf[:4]\<close>, the two new bytes and two stale
  bytes of the buffer: the stored body has 6 bytes.
\<close>

theorem recv_body_appends_stale_bytes:
  "(case http_request_init
           [Chunk (''POST /x HTTP/1.1'' @ [CHR 0x0D, CHR 0x0A] @ ''Content-Length: 4'' @ CRLFCRLF),
            Chunk ''ab'', Chunk ''cd''] of
      Some (Inr r, rest) \<Rightarrow>
        req_type r = ''POST'' \<and> headers r ''content-length'' = Some (HNum 4)
        \<and> body r = ''abcd'' @ [CHR 0x00, CHR 0x00] \<and> length (body r) = 6 \<and> rest = []
    | _ \<Rightarrow> False)"
proof -
  let ?h = "''POST /x HTTP/1.1'' @ [CHR 0x0D, CHR 0x0A] @ ''Content-Length: 4'' @ [CHR 0x0D, CHR 0x0A]"
  let ?r = "\<lparr>head = ?h, body = [], reqline = (''POST'', ''/x'', ''HTTP/1.1''),
             headers = [''content-length'' \<mapsto> HNum 4]\<rparr>"
  have h: "http_head_init
           [Chunk (''POST /x HTTP/1.1'' @ [CHR 0x0D, CHR 0x0A] @ ''Content-Length: 4'' @ CRLFCRLF),
            Chunk ''ab'', Chunk ''cd''] = Some (Inr ?r, [Chunk ''ab'', Chunk ''cd''])"
    using post_head [of "[Chunk ''ab'', Chunk ''cd'']"] post_reqline post_headers
    by (simp add: http_head_init_def)
  have b: "recv_body ?r [Chunk ''ab'', Chunk ''cd'']
             = Some (Inr (?r\<lparr>body := ''abcd'' @ [CHR 0x00, CHR 0x00]\<rparr>), [])"
    using recv_body_loop_two_reads by (simp add: recv_body_def)
  show ?thesis
    using h b by (simp add: http_request_init_def req_type_def)
qed

section \<open>Properties of the discovery responder\<close>


text \<open>A match binds as many groups as the pattern has.\<close>

lemma rmatch_groups:
  "(rmatch items s = Some (groups, rest) \<longrightarrow> length groups = count_groups items)"
  "(lazy_more cl r acc s = Some (groups, rest) \<longrightarrow> length groups = Suc (count_groups r))"
proof (induction items s and cl r acc s arbitrary: groups rest and groups rest
       rule: rmatch_lazy_more.induct)
  case (8 cl r acc s)
  show ?case
  proof (cases "rmatch r s")
    case None
    then show ?thesis
      using 8 by (subst lazy_more.simps) (auto split: list.splits if_splits)
  next
    case (Some p)
    then show ?thesis
      using 8 by (subst lazy_more.simps) (auto split: prod.splits)
  qed
qed (auto split: if_splits option.splits)


lemma reqline_three_groups:
  assumes "rmatch RE_REQLINE s = Some (groups, rest)"
  shows "groups = [groups ! 0, groups ! 1, groups ! 2]"
proof -
  have "length groups = 3"
    using rmatch_groups(1) [of RE_REQLINE s groups rest] assms by (simp add: RE_REQLINE_def)
  then show ?thesis
    by (cases groups; cases "tl groups"; cases "tl (tl groups)") auto
qed

lemma should_respond_True_iff:
  "should_respond head_str = Inr True \<longleftrightarrow>
     (\<exists>target protocol rest.
         rmatch RE_REQLINE head_str = Some ([''IOT-SEARCH'', target, protocol], rest))
     \<and> (\<exists>hs. parse_headers head_str = Inr hs
               \<and> hs ''host'' = Some (HStr ''239.255.255.250:1900'')
               \<and> hs ''sv'' = Some (HStr ''iotscp:discover'')
               \<and> hs ''return'' = Some (HStr ''device; type=basedevice''))"
proof (cases "rmatch RE_REQLINE head_str")
  case None
  then show ?thesis by (simp add: should_respond_def)
next
  case (Some p)
  obtain groups rest where p: "p = (groups, rest)" by (cases p)
  have g: "groups = [groups ! 0, groups ! 1, groups ! 2]"
    using Some p by (intro reqline_three_groups) simp
  show ?thesis
  proof (cases "groups ! 0 = ''IOT-SEARCH''")
    case True
    have "\<exists>target protocol rest.
         rmatch RE_REQLINE head_str = Some ([''IOT-SEARCH'', target, protocol], rest)"
      using Some p g True by metis
    then show ?thesis
      using Some p True
      by (cases "parse_headers head_str") (auto simp: should_respond_def)
  next
    case False
    then show ?thesis
      using Some p by (auto simp: should_respond_def)
  qed
qed

text \<open>
  Claim C9, amended.  The responder replies to a datagram if and only if its first 4096
  bytes are ASCII, their start matches \<^verbatim>\<open>VERB SP TARGET SP PROTOCOL CRLF\<close> with the
  verb \<^verbatim>\<open>IOT-SEARCH\<close> (any target, any protocol), header parsing raises no error, and
  the parsed headers bind \<open>host\<close> to \<open>239.255.255.250:1900\<close>, \<open>sv\<close> to
  \<open>iotscp:discover\<close> and \<open>return\<close> to \<open>device; type=basedevice\<close>; the reply is the
  fixed 200 response.
\<close>

theorem responder_replies_iff:
  "(listen_once location date datagram \<noteq> None \<longleftrightarrow>
      list_all (\<lambda>c. (of_char c :: nat) < 128) (take 4096 datagram)
      \<and> (\<exists>target protocol rest.
            rmatch RE_REQLINE (take 4096 datagram)
              = Some ([''IOT-SEARCH'', target, protocol], rest))
      \<and> (\<exists>hs. parse_headers (take 4096 datagram) = Inr hs
               \<and> hs ''host'' = Some (HStr ''239.255.255.250:1900'')
               \<and> hs ''sv'' = Some (HStr ''iotscp:discover'')
               \<and> hs ''return'' = Some (HStr ''device; type=basedevice'')))
   \<and> (listen_once location date datagram \<noteq> None \<longrightarrow>
        listen_once location date datagram = Some (udp_response location date))"
proof -
  have "listen_once location date datagram \<noteq> None \<longleftrightarrow>
      list_all (\<lambda>c. (of_char c :: nat) < 128) (take 4096 datagram)
      \<and> should_respond (take 4096 datagram) = Inr True"
    by (auto simp: listen_once_def decode_ascii_def split: sum.splits if_splits)
  moreover have "listen_once location date datagram \<noteq> None \<longrightarrow>
        listen_once location date datagram = Some (udp_response location date)"
    by (auto simp: listen_once_def split: sum.splits if_splits)
  ultimately show ?thesis
    unfolding should_respond_True_iff by blast
qed

subsection \<open>The responder at concrete datagrams\<close>

lemma other_target_reqline:
  "rmatch RE_REQLINE
     (''IOT-SEARCH /x HTTP/9.9'' @ [CHR 0x0D, CHR 0x0A]
      @ ''Host: 239.255.255.250:1900'' @ [CHR 0x0D, CHR 0x0A]
      @ ''SV: iotscp:discover'' @ [CHR 0x0D, CHR 0x0A]
      @ ''Return: device; type=basedevice'' @ [CHR 0x0D, CHR 0x0A, CHR 0x0D, CHR 0x0A])
   = Some ([''IOT-SEARCH'', ''/x'', ''HTTP/9.9''],
           ''Host: 239.255.255.250:1900'' @ [CHR 0x0D, CHR 0x0A]
           @ ''SV: iotscp:discover'' @ [CHR 0x0D, CHR 0x0A]
           @ ''Return: device; type=basedevice'' @ [CHR 0x0D, CHR 0x0A, CHR 0x0D, CHR 0x0A])"
  by (simp add: RE_REQLINE_def lazy_more.simps)

lemma other_target_matches:
  "finditer RE_HEADERS
     (''IOT-SEARCH /x HTTP/9.9'' @ [CHR 0x0D, CHR 0x0A]
      @ ''Host: 239.255.255.250:1900'' @ [CHR 0x0D, CHR 0x0A]
      @ ''SV: iotscp:discover'' @ [CHR 0x0D, CHR 0x0A]
      @ ''Return: device; type=basedevice'' @ [CHR 0x0D, CHR 0x0A, CHR 0x0D, CHR 0x0A])
   = [[''Host'', ''239.255.255.250:1900''], [''SV'', ''iotscp:discover''],
      [''Return'', ''device; type=basedevice'']]"
  by (simp add: RE_HEADERS_def lazy_more.simps finditer.simps)


lemma other_target_headers:
  "parse_headers
     (''IOT-SEARCH /x HTTP/9.9'' @ [CHR 0x0D, CHR 0x0A]
      @ ''Host: 239.255.255.250:1900'' @ [CHR 0x0D, CHR 0x0A]
      @ ''SV: iotscp:discover'' @ [CHR 0x0D, CHR 0x0A]
      @ ''Return: device; type=basedevice'' @ [CHR 0x0D, CHR 0x0A, CHR 0x0D, CHR 0x0A])
   = Inr [''host'' \<mapsto> HStr ''239.255.255.250:1900'', ''sv'' \<mapsto> HStr ''iotscp:discover'',
          ''return'' \<mapsto> HStr ''device; type=basedevice'']"
  using other_target_matches
  by (simp add: parse_headers_def lower_def lower_char_def NUMBER_TYPES_def)

text \<open>
  Claim C9 as stated requires the request line \<^verbatim>\<open>IOT-SEARCH * HTTP/1.1\<close>.  A datagram
  with the request line \<^verbatim>\<open>IOT-SEARCH /x HTTP/9.9\<close> and the three headers is answered:
  only the verb is compared.
\<close>

theorem responder_ignores_target_and_protocol:
  "listen_once ''http://192.168.1.5:8000/setup.json'' ''Thu, 01 Jan 1970 00:00:00 GMT''
     (''IOT-SEARCH /x HTTP/9.9'' @ [CHR 0x0D, CHR 0x0A]
      @ ''Host: 239.255.255.250:1900'' @ [CHR 0x0D, CHR 0x0A]
      @ ''SV: iotscp:discover'' @ [CHR 0x0D, CHR 0x0A]
      @ ''Return: device; type=basedevice'' @ [CHR 0x0D, CHR 0x0A, CHR 0x0D, CHR 0x0A])
     = Some (udp_response ''http://192.168.1.5:8000/setup.json'' ''Thu, 01 Jan 1970 00:00:00 GMT'')
   \<and> map_option fst (rmatch RE_REQLINE
     (''IOT-SEARCH /x HTTP/9.9'' @ [CHR 0x0D, CHR 0x0A]
      @ ''Host: 239.255.255.250:1900'' @ [CHR 0x0D, CHR 0x0A]
      @ ''SV: iotscp:discover'' @ [CHR 0x0D, CHR 0x0A]
      @ ''Return: device; type=basedevice'' @ [CHR 0x0D, CHR 0x0A, CHR 0x0D, CHR 0x0A]))
     = Some [''IOT-SEARCH'', ''/x'', ''HTTP/9.9'']
   \<and> [''IOT-SEARCH'', ''/x'', ''HTTP/9.9''] \<noteq> [''IOT-SEARCH'', ''*'', ''HTTP/1.1'']"
  using other_target_reqline other_target_headers
  by (simp add: listen_once_def decode_ascii_def should_respond_def)

lemma search_reqline:
  "rmatch RE_REQLINE
     (''IOT-SEARCH * HTTP/1.1'' @ [CHR 0x0D, CHR 0x0A]
      @ ''Host: 239.255.255.250:1900'' @ [CHR 0x0D, CHR 0x0A]
      @ ''Return: device; type=basedevice'' @ [CHR 0x0D, CHR 0x0A]
      @ ''SV: iotscp:discover'' @ [CHR 0x0D, CHR 0x0A, CHR 0x0D, CHR 0x0A])
   = Some ([''IOT-SEARCH'', ''*'', ''HTTP/1.1''],
           ''Host: 239.255.255.250:1900'' @ [CHR 0x0D, CHR 0x0A]
           @ ''Return: device; type=basedevice'' @ [CHR 0x0D, CHR 0x0A]
           @ ''SV: iotscp:discover'' @ [CHR 0x0D, CHR 0x0A, CHR 0x0D, CHR 0x0A])"
  by (simp add: RE_REQLINE_def lazy_more.simps)

lemma search_matches:
  "finditer RE_HEADERS
     (''IOT-SEARCH * HTTP/1.1'' @ [CHR 0x0D, CHR 0x0A]
      @ ''Host: 239.255.255.250:1900'' @ [CHR 0x0D, CHR 0x0A]
      @ ''Return: device; type=basedevice'' @ [CHR 0x0D, CHR 0x0A]
      @ ''SV: iotscp:discover'' @ [CHR 0x0D, CHR 0x0A, CHR 0x0D, CHR 0x0A])
   = [[''Host'', ''239.255.255.250:1900''], [''Return'', ''device; type=basedevice''],
      [''SV'', ''iotscp:discover'']]"
  by (simp add: RE_HEADERS_def lazy_more.simps finditer.simps)

lemma search_headers:
  "parse_headers
     (''IOT-SEARCH * HTTP/1.1'' @ [CHR 0x0D, CHR 0x0A]
      @ ''Host: 239.255.255.250:1900'' @ [CHR 0x0D, CHR 0x0A]
      @ ''Return: device; type=basedevice'' @ [CHR 0x0D, CHR 0x0A]
      @ ''SV: iotscp:discover'' @ [CHR 0x0D, CHR 0x0A, CHR 0x0D, CHR 0x0A])
   = Inr [''host'' \<mapsto> HStr ''239.255.255.250:1900'',
          ''return'' \<mapsto> HStr ''device; type=basedevice'', ''sv'' \<mapsto> HStr ''iotscp:discover'']"
  using search_matches
  by (simp add: parse_headers_def lower_def lower_char_def NUMBER_TYPES_def)

theorem responder_replies_iff_witness:
  "list_all (\<lambda>c. (of_char c :: nat) < 128)
     (take 4096 (''IOT-SEARCH * HTTP/1.1'' @ [CHR 0x0D, CHR 0x0A]
      @ ''Host: 239.255.255.250:1900'' @ [CHR 0x0D, CHR 0x0A]
      @ ''Return: device; type=basedevice'' @ [CHR 0x0D, CHR 0x0A]
      @ ''SV: iotscp:discover'' @ [CHR 0x0D, CHR 0x0A, CHR 0x0D, CHR 0x0A]))
   \<and> listen_once ''http://192.168.1.5:8000/setup.json'' ''Thu, 01 Jan 1970 00:00:00 GMT''
     (''IOT-SEARCH * HTTP/1.1'' @ [CHR 0x0D, CHR 0x0A]
      @ ''Host: 239.255.255.250:1900'' @ [CHR 0x0D, CHR 0x0A]
      @ ''Return: device; type=basedevice'' @ [CHR 0x0D, CHR 0x0A]
      @ ''SV: iotscp:discover'' @ [CHR 0x0D, CHR 0x0A, CHR 0x0D, CHR 0x0A])
     = Some (udp_response ''http://192.168.1.5:8000/setup.json'' ''Thu, 01 Jan 1970 00:00:00 GMT'')"
proof -
  let ?d = "''IOT-SEARCH * HTTP/1.1'' @ [CHR 0x0D, CHR 0x0A]
      @ ''Host: 239.255.255.250:1900'' @ [CHR 0x0D, CHR 0x0A]
      @ ''Return: device; type=basedevice'' @ [CHR 0x0D, CHR 0x0A]
      @ ''SV: iotscp:discover'' @ [CHR 0x0D, CHR 0x0A, CHR 0x0D, CHR 0x0A]"
  have t: "take 4096 ?d = ?d" by simp
  have a: "list_all (\<lambda>c. (of_char c :: nat) < 128) (take 4096 ?d)" by simp
  have r: "\<exists>target protocol rest.
      rmatch RE_REQLINE (take 4096 ?d) = Some ([''IOT-SEARCH'', target, protocol], rest)"
    unfolding t using search_reqline by blast
  have h: "\<exists>hs. parse_headers (take 4096 ?d) = Inr hs
               \<and> hs ''host'' = Some (HStr ''239.255.255.250:1900'')
               \<and> hs ''sv'' = Some (HStr ''iotscp:discover'')
               \<and> hs ''return'' = Some (HStr ''device; type=basedevice'')"
    unfolding t using search_headers by simp
  from responder_replies_iff [of "''http://192.168.1.5:8000/setup.json''"
         "''Thu, 01 Jan 1970 00:00:00 GMT''" ?d] a r h
  have "listen_once ''http://192.168.1.5:8000/setup.json'' ''Thu, 01 Jan 1970 00:00:00 GMT'' ?d
     = Some (udp_response ''http://192.168.1.5:8000/setup.json'' ''Thu, 01 Jan 1970 00:00:00 GMT'')"
    by blast
  with a show ?thesis by blast
qed

section \<open>Properties of session creation\<close>

lemma write_body_401:
  "write_body sc 401 ctype content
     = Inr (sc\<lparr>sent := sent sc @
          [\<lparr>scode = 401, reason = ''Unauthorized'',
            sent_headers = [(''Content-Type'', ctype),
                            (''Content-Length'', str_nat (length content))],
            connection = (if keep_alive sc then ''keep-alive'' else ''close''),
            payload = content\<rparr>]\<rparr>)"
  by (simp add: write_body_def make_head_def RESPONSES_def)

lemma create_session_key_error:
  assumes "create_session_try env dev uuid sc = (Some (KeyError k), dev, sc)"
  shows "create_session env dev uuid sc
           = (None, dev, sc\<lparr>sent := sent sc @
                [\<lparr>scode = 401, reason = ''Unauthorized'',
                  sent_headers =
                    [(''Content-Type'', ''application/json''),
                     (''Content-Length'',
                      str_nat (length (json_dumps env (JObj [(''missing'', JStr k)]))))],
                  connection = (if keep_alive sc then ''keep-alive'' else ''close''),
                  payload = json_dumps env (JObj [(''missing'', JStr k)])\<rparr>]\<rparr>)"
  using assms by (simp add: create_session_def write_body_401)

text \<open>
  Claim C7, amended.  For a hello request whose body decodes and parses to a JSON
  \<^emph>\<open>object\<close>: when the object has no \<open>offset\<close> key, or has one for which the
  certificate object is constructed without error and has no \<open>algorithms\<close> key, the
  handler writes one response, 401 with content type \<open>application/json\<close> and the
  serialization of \<open>{"missing": <name of the missing key>}\<close> as body, and leaves the
  device, and with it the session table, as it was.
\<close>

theorem create_session_missing_key:
  assumes "utf8_decode (bytes_of (body (req sc))) = Some text"
    and "json_loads env text = Inr (JObj kv)"
  shows "(map_of kv ''offset'' = None \<longrightarrow>
            create_session env dev uuid sc
              = (None, dev, sc\<lparr>sent := sent sc @
                  [\<lparr>scode = 401, reason = ''Unauthorized'',
                    sent_headers =
                      [(''Content-Type'', ''application/json''),
                       (''Content-Length'',
                        str_nat (length (json_dumps env (JObj [(''missing'', JStr ''offset'')]))))],
                    connection = (if keep_alive sc then ''keep-alive'' else ''close''),
                    payload = json_dumps env (JObj [(''missing'', JStr ''offset'')])\<rparr>]\<rparr>))
       \<and> (\<forall>off cert.
             map_of kv ''offset'' = Some off \<and> SCCertificate env uuid off = Inr cert
             \<and> map_of kv ''algorithms'' = None \<longrightarrow>
            create_session env dev uuid sc
              = (None, dev, sc\<lparr>sent := sent sc @
                  [\<lparr>scode = 401, reason = ''Unauthorized'',
                    sent_headers =
                      [(''Content-Type'', ''application/json''),
                       (''Content-Length'',
                        str_nat (length (json_dumps env (JObj [(''missing'', JStr ''algorithms'')]))))],
                    connection = (if keep_alive sc then ''keep-alive'' else ''close''),
                    payload = json_dumps env (JObj [(''missing'', JStr ''algorithms'')])\<rparr>]\<rparr>))"
proof (intro conjI impI allI)
  assume "map_of kv ''offset'' = None"
  then have "create_session_try env dev uuid sc = (Some (KeyError ''offset''), dev, sc)"
    using assms by (simp add: create_session_try_def)
  then show "create_session env dev uuid sc
              = (None, dev, sc\<lparr>sent := sent sc @
                  [\<lparr>scode = 401, reason = ''Unauthorized'',
                    sent_headers =
                      [(''Content-Type'', ''application/json''),
                       (''Content-Length'',
                        str_nat (length (json_dumps env (JObj [(''missing'', JStr ''offset'')]))))],
                    connection = (if keep_alive sc then ''keep-alive'' else ''close''),
                    payload = json_dumps env (JObj [(''missing'', JStr ''offset'')])\<rparr>]\<rparr>)"
    by (rule create_session_key_error)
next
  fix off cert
  assume "map_of kv ''offset'' = Some off \<and> SCCertificate env uuid off = Inr cert
             \<and> map_of kv ''algorithms'' = None"
  then have "create_session_try env dev uuid sc = (Some (KeyError ''algorithms''), dev, sc)"
    using assms by (simp add: create_session_try_def)
  then show "create_session env dev uuid sc
              = (None, dev, sc\<lparr>sent := sent sc @
                  [\<lparr>scode = 401, reason = ''Unauthorized'',
                    sent_headers =
                      [(''Content-Type'', ''application/json''),
                       (''Content-Length'',
                        str_nat (length (json_dumps env (JObj [(''missing'', JStr ''algorithms'')]))))],
                    connection = (if keep_alive sc then ''keep-alive'' else ''close''),
                    payload = json_dumps env (JObj [(''missing'', JStr ''algorithms'')])\<rparr>]\<rparr>)"
    by (rule create_session_key_error)
qed


lemma create_session_try_failure_keeps_device:
  "create_session_try env dev uuid sc = (Some e, dev', sc') \<Longrightarrow> dev' = dev"
  by (auto simp: create_session_try_def split: option.splits sum.splits)

text \<open>
  Claim C7 as stated covers every body that parses as JSON and lacks the keys.  The body
  \<^verbatim>\<open>[]\<close> parses as JSON and has no \<open>offset\<close> key; subscripting the list with a text
  raises \<^verbatim>\<open>TypeError\<close>, which the last \<^verbatim>\<open>except\<close> clause answers with 500.
\<close>

theorem create_session_array_body:
  "utf8_decode (bytes_of ''[]'') = Some [91, 93]
   \<and> json_loads (sample_environment [([91, 93], JArr [])]) [91, 93] = Inr (JArr [])
   \<and> map scode (sent (snd (snd (create_session (sample_environment [([91, 93], JArr [])])
                                   sample_device ''abc'' (hello_request ''[]'')))))
       = [500]"
  by (simp add: bytes_of_def create_session_def create_session_try_def write_head_def
        make_head_def RESPONSES_def sample_environment_def table_json_loads_def
        hello_request_def)

text \<open>
  The amended claim at the bodies \<^verbatim>\<open>{}\<close> and \<^verbatim>\<open>{"offset": 0}\<close>, with a JSON
  decoder that knows the text and a certificate class that constructs without error.
\<close>

theorem create_session_missing_key_witness:
  "map (\<lambda>r. (scode r, payload r))
       (sent (snd (snd (create_session
          (sample_environment [([123, 125], JObj [])]) sample_device ''abc''
          (hello_request ''{}'')))))
     = [(401, [CHR 0x7B, CHR 0x22] @ ''missing'' @ [CHR 0x22, CHR 0x3A, CHR 0x20, CHR 0x22]
                @ ''offset'' @ [CHR 0x22, CHR 0x7D])]
   \<and> fst (snd (create_session
          (sample_environment [([123, 125], JObj [])]) sample_device ''abc''
          (hello_request ''{}''))) = sample_device
   \<and> map (\<lambda>r. (scode r, payload r))
       (sent (snd (snd (create_session
          (sample_environment
             [([123, 34, 111, 102, 102, 115, 101, 116, 34, 58, 32, 48, 125],
               JObj [(''offset'', JInt 0)])])
          sample_device ''abc''
          (hello_request ([CHR 0x7B, CHR 0x22] @ ''offset'' @ [CHR 0x22, CHR 0x3A, CHR 0x20]
                            @ ''0'' @ [CHR 0x7D]))))))
     = [(401, [CHR 0x7B, CHR 0x22] @ ''missing'' @ [CHR 0x22, CHR 0x3A, CHR 0x20, CHR 0x22]
                @ ''algorithms'' @ [CHR 0x22, CHR 0x7D])]
   \<and> fst (snd (create_session
          (sample_environment
             [([123, 34, 111, 102, 102, 115, 101, 116, 34, 58, 32, 48, 125],
               JObj [(''offset'', JInt 0)])])
          sample_device ''abc''
          (hello_request ([CHR 0x7B, CHR 0x22] @ ''offset'' @ [CHR 0x22, CHR 0x3A, CHR 0x20]
                            @ ''0'' @ [CHR 0x7D])))) = sample_device"
proof -
  let ?e1 = "sample_environment [([123, 125], JObj [])]"
  let ?t2 = "[123, 34, 111, 102, 102, 115, 101, 116, 34, 58, 32, 48, 125] :: nat list"
  let ?e2 = "sample_environment [(?t2, JObj [(''offset'', JInt 0)])]"
  let ?b2 = "[CHR 0x7B, CHR 0x22] @ ''offset'' @ [CHR 0x22, CHR 0x3A, CHR 0x20] @ ''0'' @ [CHR 0x7D]"
  have d1: "utf8_decode (bytes_of (body (req (hello_request ''{}'')))) = Some [123, 125]"
    by (simp add: bytes_of_def hello_request_def)
  have j1: "json_loads ?e1 [123, 125] = Inr (JObj [])"
    by (simp add: sample_environment_def table_json_loads_def)
  have d2: "utf8_decode (bytes_of (body (req (hello_request ?b2)))) = Some ?t2"
    by (simp add: bytes_of_def hello_request_def)
  have j2: "json_loads ?e2 ?t2 = Inr (JObj [(''offset'', JInt 0)])"
    by (simp add: sample_environment_def table_json_loads_def)
  have h2: "map_of [(''offset'', JInt 0)] ''offset'' = Some (JInt 0)
            \<and> SCCertificate ?e2 ''abc'' (JInt 0) = Inr \<lparr>cert_uuid = ''abc'', cert_offset = JInt 0\<rparr>
            \<and> map_of [(''offset'', JInt 0)] ''algorithms'' = None"
    by (simp add: sample_environment_def plain_certificate_def)
  have r1: "create_session ?e1 sample_device ''abc'' (hello_request ''{}'')
      = (None, sample_device, (hello_request ''{}'')\<lparr>sent := sent (hello_request ''{}'') @
           [\<lparr>scode = 401, reason = ''Unauthorized'',
             sent_headers =
               [(''Content-Type'', ''application/json''),
                (''Content-Length'',
                 str_nat (length (json_dumps ?e1 (JObj [(''missing'', JStr ''offset'')]))))],
             connection = (if keep_alive (hello_request ''{}'') then ''keep-alive'' else ''close''),
             payload = json_dumps ?e1 (JObj [(''missing'', JStr ''offset'')])\<rparr>]\<rparr>)"
    using create_session_missing_key [OF d1 j1, of sample_device "''abc''"] by simp
  have r2: "create_session ?e2 sample_device ''abc'' (hello_request ?b2)
      = (None, sample_device, (hello_request ?b2)\<lparr>sent := sent (hello_request ?b2) @
           [\<lparr>scode = 401, reason = ''Unauthorized'',
             sent_headers =
               [(''Content-Type'', ''application/json''),
                (''Content-Length'',
                 str_nat (length (json_dumps ?e2 (JObj [(''missing'', JStr ''algorithms'')]))))],
             connection = (if keep_alive (hello_request ?b2) then ''keep-alive'' else ''close''),
             payload = json_dumps ?e2 (JObj [(''missing'', JStr ''algorithms'')])\<rparr>]\<rparr>)"
    using create_session_missing_key [OF d2 j2, of sample_device "''abc''"] h2 by blast
  show ?thesis
    unfolding r1 r2 by (simp add: sample_environment_def hello_request_def)
qed

section \<open>Further properties of the HTTP engine\<close>

subsection \<open>What holds of the head reader\<close>

text \<open>
  The parts of the description of \<^verbatim>\<open>get_head\<close> that hold: once 65537 bytes are
  accumulated the loop raises \<^verbatim>\<open>HTTPError\<close>; the loop raises nothing but
  \<^verbatim>\<open>HTTPError\<close> and the socket's error; and \<^verbatim>\<open>NullRequestError\<close> is raised exactly
  when the first read returns zero bytes.
\<close>

lemma get_head_loop_cap:
  "65537 \<le> length recvd \<Longrightarrow>
   get_head_loop client buf recvd = Some (Inl (HTTPError ''HTTP head too long''), client)"
  by (subst get_head_loop.simps) simp

lemma decode_http_head_error:
  "decode_http_head h = Inl e \<Longrightarrow> e = HTTPError ''HTTP head contained invalid characters''"
  by (auto simp: decode_http_head_def split: if_splits)

lemma recv_into_error: "recv_into client buf = (Inl e, client') \<Longrightarrow> e = SocketError"
  by (cases "(client, buf)" rule: recv_into.cases) (auto split: if_splits)

lemma get_head_loop_errors:
  assumes "get_head_loop client buf recvd = Some y"
  shows "\<forall>e c'. y = (Inl e, c') \<longrightarrow> e = SocketError \<or> (\<exists>msg. e = HTTPError msg)"
  by (rule get_head_loop.raw_induct
        [where P = "\<lambda>client buf recvd y.
            \<forall>e c'. y = (Inl e, c') \<longrightarrow> e = SocketError \<or> (\<exists>msg. e = HTTPError msg)",
         OF _ assms])
     (auto split: if_splits prod.splits sum.splits option.splits
           dest: recv_into_error decode_http_head_error)

lemma recv_into_zero:
  "recv_into client buf = (Inr (0, buf'), client') \<Longrightarrow> buf \<noteq> [] \<Longrightarrow>
   client = [] \<or> (\<exists>es. client = Chunk [] # es)"
  by (cases "(client, buf)" rule: recv_into.cases) (auto split: if_splits)

lemma get_head_null_request_iff:
  "(\<exists>client'. get_head client = Some (Inl NullRequestError, client'))
     \<longleftrightarrow> client = [] \<or> (\<exists>es. client = Chunk [] # es)"
proof
  assume "\<exists>client'. get_head client = Some (Inl NullRequestError, client')"
  then obtain client' where g: "get_head client = Some (Inl NullRequestError, client')" by blast
  obtain res c1 where r: "recv_into client (bytearray BUFSIZE) = (res, c1)" by fastforce
  show "client = [] \<or> (\<exists>es. client = Chunk [] # es)"
  proof (cases res)
    case (Inl e)
    with g r recv_into_error [of client "bytearray BUFSIZE" e c1] show ?thesis
      by (simp add: get_head_def)
  next
    case (Inr p)
    obtain amt buf where p: "p = (amt, buf)" by (cases p)
    have loop: "get_head_loop c1 buf buf \<noteq> Some (Inl NullRequestError, client')"
      using get_head_loop_errors [of c1 buf buf "(Inl NullRequestError, client')"] by auto
    have "amt = 0"
      using g r Inr p loop
      by (auto simp: get_head_def split: if_splits option.splits sum.splits
               dest: decode_http_head_error)
    then show ?thesis
      using r Inr p recv_into_zero [of client "bytearray BUFSIZE" buf c1]
      by (simp add: bytearray_def BUFSIZE_def)
  qed
next
  assume "client = [] \<or> (\<exists>es. client = Chunk [] # es)"
  then show "\<exists>client'. get_head client = Some (Inl NullRequestError, client')"
    by (auto simp: get_head_def bytearray_def BUFSIZE_def)
qed

text \<open>
  After the peer has closed, a read adds nothing, so a loop that has not seen a separator
  below the cap never returns.  A separator split across the first two reads is never
  seen, because the zero bytes of the first buffer sit between its halves.
\<close>

lemma get_head_loop_closed_peer:
  assumes "length recvd < 65537" "find_sub recvd CRLFCRLF = None"
  shows "get_head_loop [] buf recvd = None"
proof (rule ccontr)
  assume "get_head_loop [] buf recvd \<noteq> None"
  then obtain y where y: "get_head_loop [] buf recvd = Some y" by blast
  have "\<not> (([] :: socket) = [] \<and> length recvd < 65537 \<and> find_sub recvd CRLFCRLF = None)"
    by (rule get_head_loop.raw_induct
          [where P = "\<lambda>client buf recvd y.
              \<not> (client = [] \<and> length recvd < 65537 \<and> find_sub recvd CRLFCRLF = None)",
           OF _ y])
       (force split: option.splits)
  with assms show False by simp
qed

lemma get_head_partial_first_read:
  assumes "0 < length d1" "length d1 + 3 \<le> BUFSIZE"
    and "find_sub (d1 @ [CHR 0x00, CHR 0x00, CHR 0x00]) CRLFCRLF = None"
  shows "get_head (Chunk d1 # es)
           = get_head_loop es (d1 @ bytearray (BUFSIZE - length d1))
                              (d1 @ bytearray (BUFSIZE - length d1))"
proof -
  let ?buf = "d1 @ bytearray (BUFSIZE - length d1)"
  have n3: "3 \<le> BUFSIZE - length d1" using assms(2) by simp
  have r1: "recv_into (Chunk d1 # es) (bytearray BUFSIZE) = (Inr (length d1, ?buf), es)"
    using assms(2) by (intro recv_into_chunk) simp
  have f1: "find_sub ?buf CRLFCRLF = None"
    using find_sub_padded [OF assms(3) n3, of "[]"]
    by (simp only: find_sub_nil_sep option.map append_Nil2 bytearray_def)
  show ?thesis
    unfolding get_head_def r1 using assms(1,2) by (simp add: f1)
qed

lemma get_head_loop_no_separator_yet:
  assumes "length recvd < 65537" "length d \<le> length buf"
    and "find_sub (recvd @ d) CRLFCRLF = None"
  shows "get_head_loop (Chunk d # es) buf recvd
           = get_head_loop es (d @ drop (length d) buf) (recvd @ d)"
proof -
  have r: "recv_into (Chunk d # es) buf = (Inr (length d, d @ drop (length d) buf), es)"
    using assms(2) by simp
  have tk: "take (length d) (d @ drop (length d) buf) = d" by simp
  show ?thesis
    apply (subst get_head_loop.simps)
    apply (simp only: assms(1,3) if_True r prod.case sum.case tk option.case)
    done
qed

lemma get_head_split_separator:
  "get_head [Chunk (''GET / HTTP/1.1'' @ [CHR 0x0D, CHR 0x0A, CHR 0x0D]),
             Chunk (CHR 0x0A # ''BODY'')] = None"
proof -
  define d1 where "d1 = ''GET / HTTP/1.1'' @ [CHR 0x0D, CHR 0x0A, CHR 0x0D]"
  define d2 where "d2 = CHR 0x0A # ''BODY''"
  define buf where "buf = d1 @ bytearray (BUFSIZE - length d1)"
  have l1: "length d1 = 17" and l2: "length d2 = 5" by (simp_all add: d1_def d2_def)
  have nosep: "find_sub (d1 @ [CHR 0x00, CHR 0x00, CHR 0x00]) CRLFCRLF = None"
    by (simp add: d1_def CRLFCRLF_def)
  have d2none: "find_sub d2 CRLFCRLF = None" by (simp add: d2_def CRLFCRLF_def)
  have n3: "3 \<le> BUFSIZE - length d1" by (simp add: l1 BUFSIZE_def)
  have lb: "length buf = BUFSIZE" by (simp add: buf_def bytearray_def l1 BUFSIZE_def)
  have f2: "find_sub (buf @ d2) CRLFCRLF = None"
    using find_sub_padded [OF nosep n3, of d2]
    by (simp only: d2none option.map bytearray_def append_assoc buf_def)
  have "get_head [Chunk d1, Chunk d2] = get_head_loop [Chunk d2] buf buf"
    unfolding buf_def by (rule get_head_partial_first_read) (simp_all add: l1 BUFSIZE_def nosep)
  also have "\<dots> = get_head_loop [] (d2 @ drop (length d2) buf) (buf @ d2)"
    by (rule get_head_loop_no_separator_yet) (simp_all add: lb l2 BUFSIZE_def f2)
  also have "\<dots> = None"
    by (rule get_head_loop_closed_peer) (simp_all add: lb l2 BUFSIZE_def f2)
  finally show ?thesis by (simp only: d1_def d2_def)
qed

subsection \<open>What holds of the body reader\<close>

text \<open>
  When the rest of the body arrives in one read, that read is appended whole: the
  stored body is the bytes sent.
\<close>

lemma recv_body_loop_one_read:
  assumes "0 < nbytes" "nbytes \<le> int (length d)" "length d \<le> length buf"
  shows "recv_body_loop (Chunk d # es) buf 0 nbytes body_u8 = Some (Inr (body_u8 @ d), es)"
proof -
  have r: "recv_into (Chunk d # es) buf = (Inr (length d, d @ drop (length d) buf), es)"
    using assms(3) by simp
  have tk: "take (nat (0 + int (length d))) (d @ drop (length d) buf) = d" by simp
  have stop: "recv_body_loop es (d @ drop (length d) buf) (0 + int (length d)) nbytes (body_u8 @ d)
                = Some (Inr (body_u8 @ d), es)"
    using assms(2) by (subst recv_body_loop.simps) simp
  show ?thesis
    apply (subst recv_body_loop.simps)
    apply (simp only: assms(1) if_True r prod.case sum.case tk stop)
    done
qed

text \<open>When the peer has closed before the announced length arrived, the loop never ends.\<close>

lemma recv_body_loop_closed_peer:
  assumes "amt < nbytes"
  shows "recv_body_loop [] buf amt nbytes body_u8 = None"
proof (rule ccontr)
  assume "recv_body_loop [] buf amt nbytes body_u8 \<noteq> None"
  then obtain y where y: "recv_body_loop [] buf amt nbytes body_u8 = Some y" by blast
  have "\<not> (([] :: socket) = [] \<and> amt < nbytes)"
    by (rule recv_body_loop.raw_induct
          [where P = "\<lambda>client buf amt nbytes body_u8 y. \<not> (client = [] \<and> amt < nbytes)",
           OF _ y])
       force
  with assms show False by simp
qed

end
